theory Spec2Isabelle
  imports Main "HOL-Library.Monad_Syntax"
begin

section \<open>Values exchanged with the backend\<close>

text \<open>
  The client works on what \<^verbatim>\<open>response.json()\<close> produces: \<^verbatim>\<open>None\<close>, booleans, integers,
  strings, lists and dictionaries. \<open>JNull\<close> stands for Python's \<^verbatim>\<open>None\<close>. A dictionary is an
  association list read with \<open>map_of\<close>. Numbers with a fractional part are outside the
  model. Strings are byte strings; the case conversions and the whitespace test below
  are those of Python on ASCII text.
\<close>

datatype json =
    JNull
  | JBool bool
  | JInt int
  | JStr string
  | JArr "json list"
  | JObj "(string \<times> json) list"

text \<open>\<^verbatim>\<open>isinstance(v, dict)\<close>, \<^verbatim>\<open>k in d\<close> and \<^verbatim>\<open>d.get(k)\<close> on a dictionary.\<close>

fun is_dict :: "json \<Rightarrow> bool" where
  "is_dict (JObj kvs) = True"
| "is_dict v = False"

definition has_key :: "(string \<times> json) list \<Rightarrow> string \<Rightarrow> bool" where
  "has_key kvs k = (map_of kvs k \<noteq> None)"

definition dict_get :: "(string \<times> json) list \<Rightarrow> string \<Rightarrow> json" where
  "dict_get kvs k = (case map_of kvs k of None \<Rightarrow> JNull | Some v \<Rightarrow> v)"

section \<open>Python string operations on ASCII text\<close>

text \<open>
  \<^verbatim>\<open>str.strip()\<close>, \<^verbatim>\<open>str.rstrip(chars)\<close>, \<^verbatim>\<open>str.lower()\<close>, \<^verbatim>\<open>str.upper()\<close>,
  \<^verbatim>\<open>str.split(sep)\<close> and the substring test \<^verbatim>\<open>sub in s\<close>.
\<close>

definition py_isspace :: "char \<Rightarrow> bool" where
  "py_isspace c = (let n = (of_char c :: nat) in (9 \<le> n \<and> n \<le> 13) \<or> (28 \<le> n \<and> n \<le> 32))"

definition lstrip :: "string \<Rightarrow> string" where
  "lstrip s = dropWhile py_isspace s"

definition rstrip :: "string \<Rightarrow> string" where
  "rstrip s = rev (dropWhile py_isspace (rev s))"

definition strip :: "string \<Rightarrow> string" where
  "strip s = rstrip (lstrip s)"

definition lstrip_chars :: "string \<Rightarrow> string \<Rightarrow> string" where
  "lstrip_chars cs s = dropWhile (\<lambda>c. c \<in> set cs) s"

definition rstrip_chars :: "string \<Rightarrow> string \<Rightarrow> string" where
  "rstrip_chars cs s = rev (dropWhile (\<lambda>c. c \<in> set cs) (rev s))"

definition ascii_lowercase :: string where
  "ascii_lowercase = ''abcdefghijklmnopqrstuvwxyz''"

definition ascii_uppercase :: string where
  "ascii_uppercase = ''ABCDEFGHIJKLMNOPQRSTUVWXYZ''"

definition lower_char :: "char \<Rightarrow> char" where
  "lower_char c = (case map_of (zip ascii_uppercase ascii_lowercase) c of Some l \<Rightarrow> l | None \<Rightarrow> c)"

definition upper_char :: "char \<Rightarrow> char" where
  "upper_char c = (case map_of (zip ascii_lowercase ascii_uppercase) c of Some u \<Rightarrow> u | None \<Rightarrow> c)"

definition lower :: "string \<Rightarrow> string" where
  "lower s = map lower_char s"

definition upper :: "string \<Rightarrow> string" where
  "upper s = map upper_char s"

fun split_on :: "char \<Rightarrow> string \<Rightarrow> string list" where
  "split_on sep [] = [[]]"
| "split_on sep (c # cs) =
     (if c = sep then [] # split_on sep cs
      else (case split_on sep cs of [] \<Rightarrow> [[c]] | w # ws \<Rightarrow> (c # w) # ws))"

fun contains :: "string \<Rightarrow> string \<Rightarrow> bool" where
  "contains sub [] = (sub = [])"
| "contains sub (c # cs) = (take (length sub) (c # cs) = sub \<or> contains sub cs)"

definition cut :: "char \<Rightarrow> string \<Rightarrow> string \<times> string" where
  "cut c s = (takeWhile (\<lambda>x. x \<noteq> c) s, drop 1 (dropWhile (\<lambda>x. x \<noteq> c) s))"

section \<open>Base URL normalization (\<^verbatim>\<open>modules/config.py\<close>)\<close>

text \<open>
  \<^verbatim>\<open>urlparse\<close> and \<^verbatim>\<open>urlunparse\<close> belong to Python's standard library; the definitions
  below follow \<^verbatim>\<open>urllib.parse\<close>: leading control characters and spaces are dropped,
  tabs and line breaks removed, then scheme, network location, fragment, query and
  parameters are split off in that order. A network location with one bracket but not
  the other raises \<^verbatim>\<open>ValueError\<close>; the further validation of a bracketed host is not
  modelled.
\<close>

datatype error = ValueError

record url_parts =
  url_scheme :: string
  url_netloc :: string
  url_path :: string
  url_params :: string
  url_query :: string
  url_fragment :: string

definition scheme_chars :: string where
  "scheme_chars = ascii_lowercase @ ascii_uppercase @ ''0123456789+-.''"

definition uses_params :: "string list" where
  "uses_params = ['''', ''ftp'', ''hdl'', ''prospero'', ''http'', ''imap'', ''https'',
     ''shttp'', ''rtsp'', ''rtspu'', ''sip'', ''sips'', ''mms'', ''sftp'', ''tel'']"

definition uses_netloc :: "string list" where
  "uses_netloc = ['''', ''ftp'', ''http'', ''gopher'', ''nntp'', ''telnet'', ''imap'',
     ''wais'', ''file'', ''mms'', ''https'', ''shttp'', ''snews'', ''prospero'', ''rtsp'',
     ''rtspu'', ''rsync'', ''svn'', ''svn+ssh'', ''sftp'', ''nfs'', ''git'', ''git+ssh'',
     ''ws'', ''wss'', ''itms-services'']"

definition split_scheme :: "string \<Rightarrow> string \<times> string" where
  "split_scheme url =
     (let (pre, rest) = cut CHR '':'' url in
      if CHR '':'' \<in> set url \<and> pre \<noteq> []
         \<and> hd pre \<in> set (ascii_lowercase @ ascii_uppercase)
         \<and> list_all (\<lambda>c. c \<in> set scheme_chars) pre
      then (lower pre, rest) else ('''', url))"

definition splitnetloc :: "string \<Rightarrow> string \<times> string" where
  "splitnetloc url =
     (if take 2 url = ''//''
      then (takeWhile (\<lambda>c. c \<notin> set ''/?#'') (drop 2 url),
            dropWhile (\<lambda>c. c \<notin> set ''/?#'') (drop 2 url))
      else ('''', url))"

definition urlsplit :: "string \<Rightarrow> error + (string \<times> string \<times> string \<times> string \<times> string)" where
  "urlsplit url0 =
     (let url1 = dropWhile (\<lambda>c. (of_char c :: nat) \<le> 32) url0;
          url2 = filter (\<lambda>c. (of_char c :: nat) \<notin> {9, 10, 13}) url1;
          (scheme, url3) = split_scheme url2;
          (netloc, url4) = splitnetloc url3
      in if (CHR ''['' \<in> set netloc) \<noteq> (CHR '']'' \<in> set netloc) then Inl ValueError
         else
           let (url5, fragment) = (if CHR ''#'' \<in> set url4 then cut CHR ''#'' url4 else (url4, ''''));
               (url6, query) = (if CHR ''?'' \<in> set url5 then cut CHR ''?'' url5 else (url5, ''''))
           in Inr (scheme, netloc, url6, query, fragment))"

definition splitparams :: "string \<Rightarrow> string \<times> string" where
  "splitparams url =
     (if CHR ''/'' \<in> set url
      then (let seg = rev (takeWhile (\<lambda>c. c \<noteq> CHR ''/'') (rev url));
                front = take (length url - length seg) url
            in if CHR '';'' \<in> set seg
               then (front @ fst (cut CHR '';'' seg), snd (cut CHR '';'' seg))
               else (url, ''''))
      else cut CHR '';'' url)"

definition urlparse :: "string \<Rightarrow> error + url_parts" where
  "urlparse url =
     (case urlsplit url of
        Inl e \<Rightarrow> Inl e
      | Inr (scheme, netloc, u, query, fragment) \<Rightarrow>
          (let (u', params) = (if scheme \<in> set uses_params \<and> CHR '';'' \<in> set u
                               then splitparams u else (u, ''''))
           in Inr \<lparr>url_scheme = scheme, url_netloc = netloc, url_path = u',
                   url_params = params, url_query = query, url_fragment = fragment\<rparr>))"

definition urlunsplit :: "string \<Rightarrow> string \<Rightarrow> string \<Rightarrow> string \<Rightarrow> string \<Rightarrow> string" where
  "urlunsplit scheme netloc url query fragment =
     (let u1 = (if netloc \<noteq> [] \<or> (scheme \<noteq> [] \<and> scheme \<in> set uses_netloc \<and> take 2 url \<noteq> ''//'')
                then ''//'' @ netloc @ (if url \<noteq> [] \<and> take 1 url \<noteq> ''/'' then ''/'' @ url else url)
                else url);
          u2 = (if scheme \<noteq> [] then scheme @ '':'' @ u1 else u1);
          u3 = (if query \<noteq> [] then u2 @ ''?'' @ query else u2)
      in if fragment \<noteq> [] then u3 @ ''#'' @ fragment else u3)"

definition urlunparse :: "url_parts \<Rightarrow> string" where
  "urlunparse p =
     urlunsplit (url_scheme p) (url_netloc p)
       (if url_params p \<noteq> [] then url_path p @ '';'' @ url_params p else url_path p)
       (url_query p) (url_fragment p)"

text \<open>
  The path of the parsed URL as \<^verbatim>\<open>_normalize_api_base_url\<close> rewrites it, and the
  function itself.
\<close>

definition api_path :: "string \<Rightarrow> string" where
  "api_path parsed_path =
     (let path = rstrip_chars ''/'' parsed_path in
      if path = [] then ''/api''
      else (let path_parts = filter (\<lambda>part. part \<noteq> []) (split_on CHR ''/'' path)
            in if ''api'' \<notin> set path_parts then path @ ''/api'' else path))"

definition normalize_api_base_url :: "string \<Rightarrow> error + string" where
  "normalize_api_base_url v =
     (let raw = strip v in
      if raw = [] then Inr ''http://remnawave:3000/api''
      else (case urlparse raw of
              Inl e \<Rightarrow> Inl e
            | Inr parsed \<Rightarrow> Inr (urlunparse (parsed\<lparr>url_path := api_path (url_path parsed)\<rparr>))))"

section \<open>Envelope unwrap (\<^verbatim>\<open>RemnaAPI._unwrap_response_payload\<close>)\<close>

fun unwrap_response_payload :: "json \<Rightarrow> json" where
  "unwrap_response_payload (JObj kvs) =
     (if has_key kvs ''response'' then dict_get kvs ''response''
      else if has_key kvs ''data'' then dict_get kvs ''data''
      else if dict_get kvs ''success'' = JBool False \<and> has_key kvs ''error'' then JNull
      else JObj kvs)"
| "unwrap_response_payload payload = payload"

section \<open>Request engine (\<^verbatim>\<open>RemnaAPI._make_request\<close>)\<close>

text \<open>
  The exceptions that reach the handlers of \<^verbatim>\<open>_make_request\<close>. \<open>HTTPStatusError\<close> carries the
  status of the response it was raised for; \<open>OtherException\<close> stands for every other
  subclass of \<^verbatim>\<open>Exception\<close> (a JSON decoding error among them). In \<^verbatim>\<open>httpx\<close> the classes
  \<^verbatim>\<open>ConnectTimeout\<close>, \<^verbatim>\<open>ReadTimeout\<close>, \<^verbatim>\<open>WriteTimeout\<close> and \<^verbatim>\<open>PoolTimeout\<close> derive from
  \<^verbatim>\<open>TimeoutException\<close>. What does not derive from \<^verbatim>\<open>Exception\<close> (a cancellation, a
  keyboard interrupt) is outside the model.
\<close>

datatype exn =
    ConnectError
  | TimeoutException
  | ConnectTimeout
  | ReadTimeout
  | WriteTimeout
  | PoolTimeout
  | RemoteProtocolError
  | HTTPStatusError int
  | OtherException

text \<open>
  The \<^verbatim>\<open>except\<close> clauses of the loop body, in the order of the source. Python runs
  the first clause whose class the exception is an instance of.
\<close>

datatype except_clause =
    On_ConnectError
  | On_TimeoutException
  | On_HTTPStatusError
  | On_RemoteProtocolError
  | On_ConnectTimeout
  | On_ReadTimeout
  | On_Exception

fun isinstance :: "exn \<Rightarrow> except_clause \<Rightarrow> bool" where
  "isinstance e On_ConnectError = (e = ConnectError)"
| "isinstance e On_TimeoutException =
     (e = TimeoutException \<or> e = ConnectTimeout \<or> e = ReadTimeout \<or> e = WriteTimeout
      \<or> e = PoolTimeout)"
| "isinstance e On_HTTPStatusError = (case e of HTTPStatusError s \<Rightarrow> True | _ \<Rightarrow> False)"
| "isinstance e On_RemoteProtocolError = (e = RemoteProtocolError)"
| "isinstance e On_ConnectTimeout = (e = ConnectTimeout)"
| "isinstance e On_ReadTimeout = (e = ReadTimeout)"
| "isinstance e On_Exception = True"

definition except_clauses :: "except_clause list" where
  "except_clauses = [On_ConnectError, On_TimeoutException, On_HTTPStatusError,
     On_RemoteProtocolError, On_ConnectTimeout, On_ReadTimeout, On_Exception]"

definition select_clause :: "exn \<Rightarrow> except_clause option" where
  "select_clause e = find (isinstance e) except_clauses"

text \<open>
  What the code reads of a response: the status, the \<^verbatim>\<open>content-type\<close> header (empty when
  absent), the body text, and the value of \<^verbatim>\<open>response.json()\<close> (\<open>None\<close> when decoding
  raises).
\<close>

record response =
  status_code :: int
  content_type :: string
  resp_text :: string
  resp_json :: "json option"

datatype net_result = Raises exn | Responds response

record request =
  req_method :: string
  req_url :: string
  req_params :: json
  req_json :: "json option"

text \<open>
  The configuration and the network. \<open>probe\<close> is the outcome of the \<^verbatim>\<open>GET\<close> issued by
  \<^verbatim>\<open>_test_connection\<close>; \<open>send rq k\<close> is the outcome of \<^verbatim>\<open>client.request\<close> in attempt \<open>k\<close>.
\<close>

record env =
  api_base_url :: string
  api_preflight :: bool
  probe :: net_result
  send :: "request \<Rightarrow> nat \<Rightarrow> net_result"

text \<open>
  The effects of a call, recorded in order: the preflight check, the main request of an
  attempt, and \<^verbatim>\<open>asyncio.sleep\<close> with its number of seconds.
\<close>

datatype event = Preflight | Request nat | Sleep nat

text \<open>
  How a loop iteration ends: it goes on to the next attempt, it returns a value, or an
  exception leaves the \<^verbatim>\<open>try\<close> body. The outcome of the whole call is a returned value
  or an exception raised to the caller.
\<close>

datatype control = Continue | Return json | Raise exn

datatype outcome = Returned json | Raised exn

definition test_connection :: "env \<Rightarrow> bool" where
  "test_connection env =
     (case probe env of Raises e \<Rightarrow> False | Responds r \<Rightarrow> status_code r = 200)"

text \<open>
  \<^verbatim>\<open>response.raise_for_status()\<close> raises \<^verbatim>\<open>HTTPStatusError\<close> unless the status is 2xx.
\<close>

definition is_success :: "response \<Rightarrow> bool" where
  "is_success r = (200 \<le> status_code r \<and> status_code r \<le> 299)"

text \<open>The body of the \<^verbatim>\<open>try\<close> statement in attempt \<open>attempt\<close>.\<close>

definition try_body :: "env \<Rightarrow> request \<Rightarrow> int \<Rightarrow> nat \<Rightarrow> event list \<times> control" where
  "try_body env rq retry_count attempt =
     (if api_preflight env \<and> attempt = 0 \<and> \<not> test_connection env
      then (if retry_count \<le> 1 then ([Preflight], Return JNull)
            else ([Preflight, Sleep 2], Continue))
      else
        (let probed = (if api_preflight env \<and> attempt = 0 then [Preflight] else [])
         in case send env rq attempt of
              Raises e \<Rightarrow> (probed @ [Request attempt], Raise e)
            | Responds r \<Rightarrow>
                if 500 \<le> status_code r \<and> int attempt < retry_count - 1
                then (probed @ [Request attempt, Sleep (2 ^ attempt)], Continue)
                else if \<not> is_success r
                then (probed @ [Request attempt], Raise (HTTPStatusError (status_code r)))
                else if status_code r = 204 \<or> status_code r = 205
                then (probed @ [Request attempt], Return JNull)
                else if \<not> contains ''application/json'' (lower (content_type r))
                then (probed @ [Request attempt], Return JNull)
                else if strip (resp_text r) = []
                then (probed @ [Request attempt], Return JNull)
                else (case resp_json r of
                        None \<Rightarrow> (probed @ [Request attempt], Raise OtherException)
                      | Some j \<Rightarrow>
                          (probed @ [Request attempt], Return (unwrap_response_payload j)))))"

text \<open>
  The handlers. All but the one for \<^verbatim>\<open>HTTPStatusError\<close> sleep and fall through to the
  next iteration while attempts remain, and return \<^verbatim>\<open>None\<close> on the last one.
\<close>

definition retry_or_give_up :: "nat \<Rightarrow> int \<Rightarrow> nat \<Rightarrow> event list \<times> control" where
  "retry_or_give_up wait_time retry_count attempt =
     (if int attempt < retry_count - 1 then ([Sleep wait_time], Continue)
      else ([], Return JNull))"

definition on_http_status_error :: "exn \<Rightarrow> int \<Rightarrow> nat \<Rightarrow> event list \<times> control" where
  "on_http_status_error e retry_count attempt =
     (case e of
        HTTPStatusError status \<Rightarrow>
          if status = 404 then ([], Return JNull)
          else if 500 \<le> status \<and> int attempt < retry_count - 1
          then ([Sleep (2 ^ attempt)], Continue)
          else ([], Return JNull)
      | _ \<Rightarrow> ([], Raise e))"

definition except_handler :: "exn \<Rightarrow> int \<Rightarrow> nat \<Rightarrow> event list \<times> control" where
  "except_handler e retry_count attempt =
     (case select_clause e of
        None \<Rightarrow> ([], Raise e)
      | Some On_ConnectError \<Rightarrow> retry_or_give_up (2 ^ attempt) retry_count attempt
      | Some On_TimeoutException \<Rightarrow> retry_or_give_up (min (2 ^ attempt) 10) retry_count attempt
      | Some On_HTTPStatusError \<Rightarrow> on_http_status_error e retry_count attempt
      | Some On_RemoteProtocolError \<Rightarrow> retry_or_give_up (2 ^ attempt) retry_count attempt
      | Some On_ConnectTimeout \<Rightarrow> retry_or_give_up (2 ^ attempt) retry_count attempt
      | Some On_ReadTimeout \<Rightarrow> retry_or_give_up (2 ^ attempt) retry_count attempt
      | Some On_Exception \<Rightarrow> retry_or_give_up (2 ^ attempt) retry_count attempt)"

definition attempt_step :: "env \<Rightarrow> request \<Rightarrow> int \<Rightarrow> nat \<Rightarrow> event list \<times> control" where
  "attempt_step env rq retry_count attempt =
     (case try_body env rq retry_count attempt of
        (evs, Raise e) \<Rightarrow>
          (case except_handler e retry_count attempt of (evs', c) \<Rightarrow> (evs @ evs', c))
      | (evs, c) \<Rightarrow> (evs, c))"

text \<open>\<^verbatim>\<open>for attempt in range(retry_count)\<close>, with \<^verbatim>\<open>return None\<close> after the loop.\<close>

function attempts :: "env \<Rightarrow> request \<Rightarrow> int \<Rightarrow> nat \<Rightarrow> event list \<Rightarrow> outcome \<times> event list" where
  "attempts env rq retry_count attempt tr =
     (if int attempt < retry_count
      then (case attempt_step env rq retry_count attempt of
              (evs, Continue) \<Rightarrow> attempts env rq retry_count (Suc attempt) (tr @ evs)
            | (evs, Return v) \<Rightarrow> (Returned v, tr @ evs)
            | (evs, Raise e) \<Rightarrow> (Raised e, tr @ evs))
      else (Returned JNull, tr))"
  by pat_completeness auto
termination
  by (relation "measure (\<lambda>(env, rq, retry_count, attempt, tr). nat (retry_count - int attempt))") auto

declare attempts.simps [simp del]

text \<open>
  The URL and the keyword arguments of the request; \<^verbatim>\<open>data\<close> is sent as JSON only for
  \<^verbatim>\<open>POST\<close>, \<^verbatim>\<open>PATCH\<close> and \<^verbatim>\<open>PUT\<close> and only when it is not \<^verbatim>\<open>None\<close>.
\<close>

definition build_request :: "env \<Rightarrow> string \<Rightarrow> string \<Rightarrow> json \<Rightarrow> json \<Rightarrow> request" where
  "build_request env method endpoint data params =
     \<lparr>req_method = method,
      req_url = rstrip_chars ''/'' (api_base_url env) @ ''/'' @ lstrip_chars ''/'' endpoint,
      req_params = params,
      req_json = (if upper method \<in> set [''POST'', ''PATCH'', ''PUT''] \<and> data \<noteq> JNull
                  then Some data else None)\<rparr>"

definition make_request :: "env \<Rightarrow> string \<Rightarrow> string \<Rightarrow> json \<Rightarrow> json \<Rightarrow> int \<Rightarrow> outcome \<times> event list" where
  "make_request env method endpoint data params retry_count =
     attempts env (build_request env method endpoint data params) retry_count 0 []"

section \<open>Vocabulary of the properties\<close>

text \<open>
  \<open>preflight_blocks\<close>: the preflight check is enabled and fails. \<open>checked env k\<close>: the
  preflight event of attempt \<open>k\<close>, if any. \<open>server_error\<close>: a response with status 500 or
  above. \<open>usable\<close>: a response with a 2xx status. \<open>main_events\<close>: a trace without its
  preflight events. \<open>backoff_schedule rc a m\<close>: the requests of attempts \<open>a\<close> to \<open>m - 1\<close>,
  each followed by a sleep of \<open>2 ^ k\<close> seconds unless it is the last attempt of the budget
  \<open>rc\<close>. \<open>requests_in\<close>: the number of main requests in a trace.
\<close>

definition preflight_blocks :: "env \<Rightarrow> bool" where
  "preflight_blocks env = (api_preflight env \<and> \<not> test_connection env)"

definition checked :: "env \<Rightarrow> nat \<Rightarrow> event list" where
  "checked env attempt = (if api_preflight env \<and> attempt = 0 then [Preflight] else [])"

definition server_error :: "net_result \<Rightarrow> bool" where
  "server_error x = (case x of Raises e \<Rightarrow> False | Responds r \<Rightarrow> 500 \<le> status_code r)"


definition main_events :: "event list \<Rightarrow> event list" where
  "main_events tr = filter (\<lambda>ev. ev \<noteq> Preflight) tr"

definition backoff_schedule :: "int \<Rightarrow> nat \<Rightarrow> nat \<Rightarrow> event list" where
  "backoff_schedule retry_count a m =
     concat (map (\<lambda>k. Request k # (if int k < retry_count - 1 then [Sleep (2 ^ k)] else []))
               [a..<m])"

definition requests_in :: "event list \<Rightarrow> nat" where
  "requests_in tr = length (filter (\<lambda>ev. case ev of Request k \<Rightarrow> True | _ \<Rightarrow> False) tr)"

section \<open>Example backends\<close>

text \<open>
  \<open>backend p probed answer\<close> is a backend with the preflight switch \<open>p\<close>, whose connection
  test ends as \<open>probed\<close> and which answers every request with \<open>answer\<close>.
\<close>

definition always :: "net_result \<Rightarrow> request \<Rightarrow> nat \<Rightarrow> net_result" where
  "always x rq k = x"

definition status_only :: "int \<Rightarrow> response" where
  "status_only s = \<lparr>status_code = s, content_type = ''text/html'', resp_text = ''<html/>'',
     resp_json = None\<rparr>"

definition json_ok :: "json \<Rightarrow> response" where
  "json_ok j = \<lparr>status_code = 200, content_type = ''application/json; charset=utf-8'',
     resp_text = ''{}'', resp_json = Some j\<rparr>"

definition backend :: "bool \<Rightarrow> net_result \<Rightarrow> net_result \<Rightarrow> env" where
  "backend preflight probed answer =
     \<lparr>api_base_url = ''http://remnawave:3000/api'', api_preflight = preflight,
      probe = probed, send = always answer\<rparr>"

section \<open>Python built-ins on these values\<close>

text \<open>
  Truthiness, \<^verbatim>\<open>str()\<close> and \<^verbatim>\<open>repr()\<close>, and \<^verbatim>\<open>int()\<close>. \<^verbatim>\<open>str()\<close> of a string is the string
  itself; of any other value it is its \<^verbatim>\<open>repr()\<close>, where strings are quoted and escaped.
  \<^verbatim>\<open>int()\<close> accepts an integer, a boolean, or a string holding an optionally signed decimal
  literal (surrounding whitespace and single underscores between digits allowed); on any
  other value it raises, which is the result \<open>None\<close> here.
\<close>

fun py_truthy :: "json \<Rightarrow> bool" where
  "py_truthy JNull = False"
| "py_truthy (JBool b) = b"
| "py_truthy (JInt n) = (n \<noteq> 0)"
| "py_truthy (JStr s) = (s \<noteq> [])"
| "py_truthy (JArr xs) = (xs \<noteq> [])"
| "py_truthy (JObj kvs) = (kvs \<noteq> [])"

definition digit_char :: "nat \<Rightarrow> char" where
  "digit_char d = ''0123456789'' ! (d mod 10)"

fun dec_digits :: "nat \<Rightarrow> string" where
  "dec_digits n = (if n < 10 then [digit_char n] else dec_digits (n div 10) @ [digit_char (n mod 10)])"

declare dec_digits.simps [simp del]

definition str_int :: "int \<Rightarrow> string" where
  "str_int n = (if n < 0 then CHR ''-'' # dec_digits (nat (- n)) else dec_digits (nat n))"

definition hex_digit :: "nat \<Rightarrow> char" where
  "hex_digit d = ''0123456789abcdef'' ! (d mod 16)"

definition repr_char :: "char \<Rightarrow> char \<Rightarrow> string" where
  "repr_char quote c =
     (let n = (of_char c :: nat) in
      if c = quote \<or> c = CHR 0x5C then [CHR 0x5C, c]
      else if n = 9 then [CHR 0x5C, CHR ''t'']
      else if n = 10 then [CHR 0x5C, CHR ''n'']
      else if n = 13 then [CHR 0x5C, CHR ''r'']
      else if n < 32 \<or> n = 127 then [CHR 0x5C, CHR ''x'', hex_digit (n div 16), hex_digit n]
      else [c])"

definition repr_str :: "string \<Rightarrow> string" where
  "repr_str s =
     (let quote = (if CHR 0x27 \<in> set s \<and> CHR 0x22 \<notin> set s then CHR 0x22 else CHR 0x27)
      in quote # concat (map (repr_char quote) s) @ [quote])"

fun join :: "string \<Rightarrow> string list \<Rightarrow> string" where
  "join sep [] = []"
| "join sep [x] = x"
| "join sep (x # y # ys) = x @ sep @ join sep (y # ys)"

fun py_repr :: "json \<Rightarrow> string" and py_repr_items :: "json list \<Rightarrow> string list"
  and py_repr_pairs :: "(string \<times> json) list \<Rightarrow> string list" where
  "py_repr JNull = ''None''"
| "py_repr (JBool b) = (if b then ''True'' else ''False'')"
| "py_repr (JInt n) = str_int n"
| "py_repr (JStr s) = repr_str s"
| "py_repr (JArr xs) = ''['' @ join '', '' (py_repr_items xs) @ '']''"
| "py_repr (JObj kvs) = ''{'' @ join '', '' (py_repr_pairs kvs) @ ''}''"
| "py_repr_items [] = []"
| "py_repr_items (x # xs) = py_repr x # py_repr_items xs"
| "py_repr_pairs [] = []"
| "py_repr_pairs ((k, v) # kvs) = (repr_str k @ '': '' @ py_repr v) # py_repr_pairs kvs"

definition py_str :: "json \<Rightarrow> string" where
  "py_str v = (case v of JStr s \<Rightarrow> s | _ \<Rightarrow> py_repr v)"


definition digit_value :: "char \<Rightarrow> nat option" where
  "digit_value c = (let n = (of_char c :: nat) in if 48 \<le> n \<and> n \<le> 57 then Some (n - 48) else None)"

fun parse_digits :: "nat \<Rightarrow> string \<Rightarrow> nat option" where
  "parse_digits acc [] = Some acc"
| "parse_digits acc (c # cs) =
     (if c = CHR ''_''
      then (case cs of
              [] \<Rightarrow> None
            | d # ds \<Rightarrow> (case digit_value d of None \<Rightarrow> None
                         | Some v \<Rightarrow> parse_digits (acc * 10 + v) ds))
      else (case digit_value c of None \<Rightarrow> None | Some v \<Rightarrow> parse_digits (acc * 10 + v) cs))"

definition parse_unsigned :: "string \<Rightarrow> nat option" where
  "parse_unsigned s =
     (case s of [] \<Rightarrow> None
      | c # cs \<Rightarrow> (case digit_value c of None \<Rightarrow> None | Some v \<Rightarrow> parse_digits v cs))"

definition int_of_str :: "string \<Rightarrow> int option" where
  "int_of_str s0 =
     (let s = strip s0 in
      case s of
        [] \<Rightarrow> None
      | c # cs \<Rightarrow>
          if c = CHR ''-'' then map_option (\<lambda>n. - int n) (parse_unsigned cs)
          else if c = CHR ''+'' then map_option int (parse_unsigned cs)
          else map_option int (parse_unsigned s))"

fun py_int :: "json \<Rightarrow> int option" where
  "py_int (JInt n) = Some n"
| "py_int (JBool b) = Some (if b then 1 else 0)"
| "py_int (JStr s) = int_of_str s"
| "py_int v = None"

section \<open>Inbound membership resolver (\<^verbatim>\<open>modules/api/inbounds.py\<close>)\<close>

text \<open>
  In this part a function that can raise returns an option, \<open>None\<close> standing for the
  exception; every handler of the module is \<^verbatim>\<open>except Exception\<close>, so the class of the
  exception never matters.

  \<^verbatim>\<open>d.get(k)\<close> raises on a value that is not a dictionary. Iterating a list gives its
  elements, a string its characters, a dictionary its keys; any other value raises. A
  Python set of profile UUIDs is a list without repetitions (up to \<^verbatim>\<open>==\<close>) in insertion
  order; only hashable values can be added or looked up.

  The modules \<^verbatim>\<open>modules/api/users.py\<close> and \<^verbatim>\<open>modules/api/config_profiles.py\<close> are not part of
  the sources at hand, so the results of \<^verbatim>\<open>UserAPI.get_all_users\<close>,
  \<^verbatim>\<open>ConfigProfileAPI.get_profiles\<close>, \<^verbatim>\<open>get_profile_inbounds\<close> and \<^verbatim>\<open>get_profile_users\<close> are
  parameters of the model (record \<open>api\<close>): a value, or \<open>None\<close> when the call raises.
  \<^verbatim>\<open>InboundAPI.get_inbounds\<close> goes through \<^verbatim>\<open>RemnaAPI.get\<close>, that is through the request
  engine above with its default budget of three attempts.
\<close>

text \<open>\<^verbatim>\<open>InboundAPI._is_active_status\<close>.\<close>

definition is_active_status :: "json \<Rightarrow> bool" where
  "is_active_status v =
     (case v of
        JNull \<Rightarrow> False
      | JBool b \<Rightarrow> b
      | _ \<Rightarrow> upper (strip (py_str v)) \<in> set [''ACTIVE'', ''ENABLED'', ''TRUE'', ''ON''])"

fun py_get :: "json \<Rightarrow> string \<Rightarrow> json option" where
  "py_get (JObj kvs) k = Some (dict_get kvs k)"
| "py_get v k = None"

fun py_iter :: "json \<Rightarrow> json list option" where
  "py_iter (JArr xs) = Some xs"
| "py_iter (JStr s) = Some (map (\<lambda>c. JStr [c]) s)"
| "py_iter (JObj kvs) = Some (map (\<lambda>kv. JStr (fst kv)) kvs)"
| "py_iter v = None"

definition iter_or_empty :: "json \<Rightarrow> json list option" where
  "iter_or_empty v = (if py_truthy v then py_iter v else Some [])"

fun py_len :: "json \<Rightarrow> nat option" where
  "py_len (JArr xs) = Some (length xs)"
| "py_len (JStr s) = Some (length s)"
| "py_len (JObj kvs) = Some (length kvs)"
| "py_len v = None"

definition py_num :: "json \<Rightarrow> int option" where
  "py_num v = (case v of JBool b \<Rightarrow> Some (if b then 1 else 0) | JInt n \<Rightarrow> Some n | _ \<Rightarrow> None)"

definition py_eq :: "json \<Rightarrow> json \<Rightarrow> bool" where
  "py_eq a b =
     (case (py_num a, py_num b) of
        (Some x, Some y) \<Rightarrow> x = y
      | (None, None) \<Rightarrow> a = b
      | _ \<Rightarrow> False)"

definition hashable :: "json \<Rightarrow> bool" where
  "hashable v = (case v of JArr xs \<Rightarrow> False | JObj kvs \<Rightarrow> False | _ \<Rightarrow> True)"

definition set_member :: "json \<Rightarrow> json list \<Rightarrow> bool" where
  "set_member v s = list_ex (py_eq v) s"

definition set_add :: "json \<Rightarrow> json list \<Rightarrow> json list" where
  "set_add v s = (if set_member v s then s else s @ [v])"

record api =
  net :: env
  get_all_users :: "json option"
  get_profiles :: "json option"
  get_profile_inbounds :: "json \<Rightarrow> json option"
  get_profile_users :: "json \<Rightarrow> json option"

text \<open>\<^verbatim>\<open>RemnaAPI.get\<close> and \<^verbatim>\<open>InboundAPI.get_inbounds\<close>.\<close>

definition api_get :: "env \<Rightarrow> string \<Rightarrow> json option" where
  "api_get e endpoint =
     (case fst (make_request e ''GET'' endpoint JNull JNull 3) of
        Returned v \<Rightarrow> Some v
      | Raised x \<Rightarrow> None)"

definition get_inbounds :: "api \<Rightarrow> json option" where
  "get_inbounds a =
     do {
       result \<leftarrow> api_get (net a) ''config-profiles/inbounds'';
       Some (case result of
               JObj kvs \<Rightarrow> if has_key kvs ''inbounds'' then dict_get kvs ''inbounds'' else result
             | _ \<Rightarrow> result)
     }"

text \<open>
  The target record: the first inbound whose UUID, as a string, is the requested one;
  \<^verbatim>\<open>None\<close> when there is none or when fetching or searching raises.
\<close>

fun find_target :: "string \<Rightarrow> json list \<Rightarrow> json option" where
  "find_target inbound_uuid [] = Some JNull"
| "find_target inbound_uuid (i # rest) =
     (case py_get i ''uuid'' of
        None \<Rightarrow> None
      | Some v \<Rightarrow> if py_str v = inbound_uuid then Some i else find_target inbound_uuid rest)"

definition resolve_target :: "api \<Rightarrow> string \<Rightarrow> json" where
  "resolve_target a inbound_uuid =
     (case do {
             all_inbounds \<leftarrow> get_inbounds a;
             xs \<leftarrow> iter_or_empty all_inbounds;
             find_target inbound_uuid xs
           } of
        None \<Rightarrow> JNull
      | Some target \<Rightarrow> target)"

text \<open>
  \<^verbatim>\<open>matches_inbound_ref\<close>. The three tests of its fallback are those of the source;
  \<^verbatim>\<open>int()\<close> may raise in the port test, and then the reference does not match.
\<close>

definition port_of :: "(string \<times> json) list \<Rightarrow> json" where
  "port_of d = (if dict_get d ''port'' \<noteq> JNull then dict_get d ''port'' else dict_get d ''listenPort'')"

definition tag_ok :: "(string \<times> json) list \<Rightarrow> (string \<times> json) list \<Rightarrow> bool" where
  "tag_ok ref tgt =
     (py_truthy (dict_get ref ''tag'') \<and> py_truthy (dict_get tgt ''tag'')
      \<and> py_str (dict_get ref ''tag'') = py_str (dict_get tgt ''tag''))"

definition port_ok :: "(string \<times> json) list \<Rightarrow> (string \<times> json) list \<Rightarrow> bool option" where
  "port_ok ref tgt =
     (if port_of ref \<noteq> JNull \<and> port_of tgt \<noteq> JNull
      then do { p \<leftarrow> py_int (port_of ref); q \<leftarrow> py_int (port_of tgt); Some (p = q) }
      else Some False)"

definition type_ok :: "(string \<times> json) list \<Rightarrow> (string \<times> json) list \<Rightarrow> bool" where
  "type_ok ref tgt =
     (py_truthy (dict_get ref ''type'') \<and> py_truthy (dict_get tgt ''type'')
      \<and> py_str (dict_get ref ''type'') = py_str (dict_get tgt ''type''))"

fun matches_inbound_ref :: "string \<Rightarrow> json \<Rightarrow> json \<Rightarrow> bool" where
  "matches_inbound_ref inbound_uuid JNull tgt = False"
| "matches_inbound_ref inbound_uuid (JStr ref) tgt = (ref = inbound_uuid)"
| "matches_inbound_ref inbound_uuid (JObj ref) tgt =
     (if py_str (dict_get ref ''uuid'') = inbound_uuid then True
      else (case tgt of
              JObj t \<Rightarrow>
                if t \<noteq> []
                then (case port_ok ref t of
                        None \<Rightarrow> False
                      | Some ports \<Rightarrow> tag_ok ref t \<and> ports \<and> type_ok ref t)
                else False
            | _ \<Rightarrow> False))"
| "matches_inbound_ref inbound_uuid ref tgt = False"

text \<open>
  The set of the profiles whose inbounds contain the requested UUID. A profile whose
  inbounds cannot be fetched or read is skipped; an exception while enumerating the
  profiles ends the enumeration and keeps what was collected.
\<close>

fun any_uuid :: "string \<Rightarrow> json list \<Rightarrow> bool option" where
  "any_uuid inbound_uuid [] = Some False"
| "any_uuid inbound_uuid (ib # rest) =
     (case py_get ib ''uuid'' of
        None \<Rightarrow> None
      | Some v \<Rightarrow> if v = JStr inbound_uuid then Some True else any_uuid inbound_uuid rest)"

fun profile_index_loop :: "api \<Rightarrow> string \<Rightarrow> json list \<Rightarrow> json list \<Rightarrow> json list" where
  "profile_index_loop a inbound_uuid [] acc = acc"
| "profile_index_loop a inbound_uuid (profile # rest) acc =
     (case profile of
        JObj kvs \<Rightarrow>
          (let profile_uuid = (if py_truthy (dict_get kvs ''uuid'') then dict_get kvs ''uuid''
                               else dict_get kvs ''id'')
           in if \<not> py_truthy profile_uuid then profile_index_loop a inbound_uuid rest acc
              else (case do {
                           profile_inbounds \<leftarrow> get_profile_inbounds a profile_uuid;
                           xs \<leftarrow> iter_or_empty profile_inbounds;
                           any_uuid inbound_uuid xs
                         } of
                      Some True \<Rightarrow>
                        if hashable profile_uuid
                        then profile_index_loop a inbound_uuid rest (set_add profile_uuid acc)
                        else profile_index_loop a inbound_uuid rest acc
                    | _ \<Rightarrow> profile_index_loop a inbound_uuid rest acc))
      | _ \<Rightarrow> acc)"

definition profile_uuids_for_inbound :: "api \<Rightarrow> string \<Rightarrow> json list" where
  "profile_uuids_for_inbound a inbound_uuid =
     (case do { profiles \<leftarrow> get_profiles a; iter_or_empty profiles } of
        None \<Rightarrow> []
      | Some ps \<Rightarrow> profile_index_loop a inbound_uuid ps [])"

text \<open>
  The scan of the users. For an active user the subscription items are collected, then
  searched for a direct reference to the inbound; then the config profile UUID is read
  from the items (or, after a direct match, from the single subscription), then from the
  user, and looked up in the profile set or verified by fetching the inbounds of that
  profile. A user found both ways is appended twice, as in the source, where the direct
  match does not skip the profile lookup.
\<close>

definition extract_users :: "json \<Rightarrow> json" where
  "extract_users users_response =
     (case users_response of
        JObj kvs \<Rightarrow> if has_key kvs ''users'' then dict_get kvs ''users'' else JArr []
      | JArr xs \<Rightarrow> JArr xs
      | _ \<Rightarrow> JArr [])"

definition subscription_items :: "(string \<times> json) list \<Rightarrow> json list" where
  "subscription_items user =
     (let subscription = dict_get user ''subscription'';
          subscriptions = (case dict_get user ''subscriptions'' of JArr xs \<Rightarrow> xs | _ \<Rightarrow> [])
      in (if py_truthy subscription \<and> is_dict subscription then [subscription] else [])
         @ filter is_dict subscriptions)"

definition sub_has_inbound :: "string \<Rightarrow> json \<Rightarrow> json \<Rightarrow> bool" where
  "sub_has_inbound inbound_uuid target sub =
     (case sub of
        JObj kvs \<Rightarrow>
          (case (if py_truthy (dict_get kvs ''inbounds'') then dict_get kvs ''inbounds'' else JArr []) of
             JArr sub_inbounds \<Rightarrow> list_ex (\<lambda>si. matches_inbound_ref inbound_uuid si target) sub_inbounds
           | _ \<Rightarrow> False)
      | _ \<Rightarrow> False)"

text \<open>
  The expression
  \<^verbatim>\<open>d.get('configProfileUuid') or (d.get('configProfile', {}) or {}).get('uuid') if isinstance(d.get('configProfile'), dict) else d.get('configProfile')\<close>:
  Python reads it as \<^verbatim>\<open>(A or B) if C else D\<close>.
\<close>

definition config_profile_expr :: "(string \<times> json) list \<Rightarrow> json" where
  "config_profile_expr d =
     (case dict_get d ''configProfile'' of
        JObj cp \<Rightarrow>
          if py_truthy (dict_get d ''configProfileUuid'') then dict_get d ''configProfileUuid''
          else dict_get cp ''uuid''
      | other \<Rightarrow> other)"

fun profile_from_subs :: "json list \<Rightarrow> json \<Rightarrow> json" where
  "profile_from_subs [] config_profile_uuid = config_profile_uuid"
| "profile_from_subs (sub # rest) config_profile_uuid =
     (case sub of
        JObj kvs \<Rightarrow>
          if py_truthy (config_profile_expr kvs) then config_profile_expr kvs
          else profile_from_subs rest (config_profile_expr kvs)
      | _ \<Rightarrow> profile_from_subs rest config_profile_uuid)"

definition profile_uses_inbound :: "api \<Rightarrow> string \<Rightarrow> json \<Rightarrow> json list \<Rightarrow> json \<Rightarrow> bool option" where
  "profile_uses_inbound a inbound_uuid target index config_profile_uuid =
     (if \<not> py_truthy config_profile_uuid then Some False
      else if index \<noteq> [] \<and> \<not> hashable config_profile_uuid then None
      else if index \<noteq> [] \<and> set_member config_profile_uuid index then Some True
      else (case do {
                   profile_inbounds \<leftarrow> get_profile_inbounds a (JStr (py_str config_profile_uuid));
                   xs \<leftarrow> iter_or_empty profile_inbounds;
                   Some (list_ex (\<lambda>pi. matches_inbound_ref inbound_uuid pi target) xs)
                 } of
              None \<Rightarrow> Some False
            | Some found \<Rightarrow> Some found))"

definition scan_user :: "api \<Rightarrow> string \<Rightarrow> json \<Rightarrow> json list \<Rightarrow> json \<Rightarrow> json list option" where
  "scan_user a inbound_uuid target index user =
     (case user of
        JObj kvs \<Rightarrow>
          if \<not> is_active_status (dict_get kvs ''status'') then Some []
          else
            (let subscription = dict_get kvs ''subscription'';
                 items = subscription_items kvs;
                 direct = list_ex (sub_has_inbound inbound_uuid target) items;
                 remaining = (if direct then [] else items);
                 candidates = (if remaining \<noteq> [] then remaining
                               else [if py_truthy subscription then subscription else JObj []]);
                 from_subs = profile_from_subs candidates JNull;
                 config_profile_uuid = (if py_truthy from_subs then from_subs
                                        else config_profile_expr kvs)
             in do {
                  by_profile \<leftarrow> profile_uses_inbound a inbound_uuid target index config_profile_uuid;
                  Some ((if direct then [user] else []) @ (if by_profile then [user] else []))
                })
      | _ \<Rightarrow> None)"

fun scan_users :: "api \<Rightarrow> string \<Rightarrow> json \<Rightarrow> json list \<Rightarrow> json list \<Rightarrow> json list option" where
  "scan_users a inbound_uuid target index [] = Some []"
| "scan_users a inbound_uuid target index (user # rest) =
     do {
       found \<leftarrow> scan_user a inbound_uuid target index user;
       more \<leftarrow> scan_users a inbound_uuid target index rest;
       Some (found @ more)
     }"

text \<open>
  The fallbacks, each tried only when nothing was found before: the legacy fields
  \<^verbatim>\<open>inbounds\<close> and \<^verbatim>\<open>activeInbounds\<close> of the users, the tag heuristic, and the users of the
  profiles of the set.
\<close>

definition legacy_refs :: "string \<Rightarrow> json \<Rightarrow> json \<Rightarrow> bool option" where
  "legacy_refs inbound_uuid target refs =
     (if py_truthy refs
      then map_option (list_ex (\<lambda>r. matches_inbound_ref inbound_uuid r target)) (py_iter refs)
      else Some False)"

fun legacy_scan :: "string \<Rightarrow> json \<Rightarrow> json list \<Rightarrow> json list option" where
  "legacy_scan inbound_uuid target [] = Some []"
| "legacy_scan inbound_uuid target (user # rest) =
     (case user of
        JObj kvs \<Rightarrow>
          if is_active_status (dict_get kvs ''status'')
          then do {
                 direct \<leftarrow> legacy_refs inbound_uuid target (dict_get kvs ''inbounds'');
                 active \<leftarrow> legacy_refs inbound_uuid target (dict_get kvs ''activeInbounds'');
                 more \<leftarrow> legacy_scan inbound_uuid target rest;
                 Some ((if direct then [user] else []) @ (if active then [user] else []) @ more)
               }
          else legacy_scan inbound_uuid target rest
      | _ \<Rightarrow> None)"

fun tag_scan :: "string \<Rightarrow> json list \<Rightarrow> json list \<Rightarrow> json list" where
  "tag_scan t_tag [] acc = acc"
| "tag_scan t_tag (user # rest) acc =
     (case user of
        JObj kvs \<Rightarrow>
          if \<not> is_active_status (dict_get kvs ''status'') then tag_scan t_tag rest acc
          else
            (let u_tag = lower (strip (py_str (if py_truthy (dict_get kvs ''tag'')
                                                then dict_get kvs ''tag'' else JStr [])))
             in if u_tag \<noteq> [] \<and> u_tag = t_tag then tag_scan t_tag rest (acc @ [user])
                else tag_scan t_tag rest acc)
      | _ \<Rightarrow> acc)"

fun add_profile_users :: "json list \<Rightarrow> json list \<times> string list \<Rightarrow> json list \<times> string list" where
  "add_profile_users [] st = st"
| "add_profile_users (u # rest) (inbound_users, seen) =
     (case u of
        JObj kvs \<Rightarrow>
          (let u_uuid = py_str (dict_get kvs ''uuid'')
           in if u_uuid \<noteq> [] \<and> u_uuid \<notin> set seen
              then add_profile_users rest (inbound_users @ [u], seen @ [u_uuid])
              else add_profile_users rest (inbound_users, seen))
      | _ \<Rightarrow> add_profile_users rest (inbound_users, seen))"

fun profile_users_scan :: "api \<Rightarrow> json list \<Rightarrow> json list \<times> string list \<Rightarrow> json list \<times> string list" where
  "profile_users_scan a [] st = st"
| "profile_users_scan a (p_uuid # rest) st =
     (case do { p_users \<leftarrow> get_profile_users a p_uuid; iter_or_empty p_users } of
        None \<Rightarrow> profile_users_scan a rest st
      | Some us \<Rightarrow> profile_users_scan a rest (add_profile_users us st))"

text \<open>
  \<^verbatim>\<open>InboundAPI.get_inbound_users\<close>: the body of its outer \<^verbatim>\<open>try\<close>, and the function, which
  returns the empty list when the body raises.
\<close>

definition resolve_inbound_users :: "api \<Rightarrow> string \<Rightarrow> json list option" where
  "resolve_inbound_users a inbound_uuid =
     (let target = resolve_target a inbound_uuid;
          index = profile_uuids_for_inbound a inbound_uuid
      in do {
           users_response \<leftarrow> get_all_users a;
           if \<not> py_truthy users_response then Some []
           else if \<not> py_truthy (extract_users users_response) then Some []
           else do {
             n \<leftarrow> py_len (extract_users users_response);
             users \<leftarrow> py_iter (extract_users users_response);
             scanned \<leftarrow> scan_users a inbound_uuid target index users;
             legacy \<leftarrow> (if scanned = [] then legacy_scan inbound_uuid target users
                        else Some scanned);
             let tagged = (case target of
                             JObj t \<Rightarrow>
                               if legacy = [] \<and> py_truthy (dict_get t ''tag'')
                               then tag_scan (lower (strip (py_str (dict_get t ''tag'')))) users []
                               else legacy
                           | _ \<Rightarrow> legacy);
             Some (if tagged = [] \<and> index \<noteq> []
                   then fst (profile_users_scan a index ([], []))
                   else tagged)
           }
         })"

definition get_inbound_users :: "api \<Rightarrow> string \<Rightarrow> json list" where
  "get_inbound_users a inbound_uuid =
     (case resolve_inbound_users a inbound_uuid of None \<Rightarrow> [] | Some found \<Rightarrow> found)"

section \<open>Online users count (\<^verbatim>\<open>InboundAPI.get_inbound_online_count\<close>)\<close>

text \<open>
  A \<^verbatim>\<open>datetime\<close> is its clock reading in microseconds with its UTC offset (\<open>None\<close> for a
  naive value, which \<^verbatim>\<open>_is_recent\<close> reads as UTC); \<open>now\<close> is the current UTC time in
  microseconds. \<^verbatim>\<open>datetime.fromisoformat\<close> is a parameter: it gives \<open>None\<close> where the
  library raises.
\<close>

record datetime =
  wall_clock :: int
  utcoffset :: "int option"

definition parse_dt :: "(string \<Rightarrow> datetime option) \<Rightarrow> json \<Rightarrow> datetime option" where
  "parse_dt fromisoformat v =
     (if \<not> py_truthy v then None
      else (let text = py_str v
            in fromisoformat (if text \<noteq> [] \<and> last text = CHR ''Z''
                              then butlast text @ ''+00:00'' else text)))"

definition instant :: "datetime \<Rightarrow> int" where
  "instant ts = wall_clock ts - (case utcoffset ts of None \<Rightarrow> 0 | Some off \<Rightarrow> off)"

definition is_recent :: "int \<Rightarrow> datetime option \<Rightarrow> int \<Rightarrow> bool" where
  "is_recent now ts minutes =
     (case ts of None \<Rightarrow> False | Some t \<Rightarrow> now - instant t \<le> minutes * 60000000)"

fun online_loop :: "(string \<Rightarrow> datetime option) \<Rightarrow> int \<Rightarrow> json list \<Rightarrow> nat option" where
  "online_loop fromisoformat now [] = Some 0"
| "online_loop fromisoformat now (user # rest) =
     (case user of
        JObj kvs \<Rightarrow>
          do {
            online_count \<leftarrow> online_loop fromisoformat now rest;
            Some ((if is_active_status (dict_get kvs ''status'')
                      \<and> is_recent now (parse_dt fromisoformat (dict_get kvs ''onlineAt'')) 5
                   then 1 else 0) + online_count)
          }
      | _ \<Rightarrow> None)"

definition get_inbound_online_count :: "(string \<Rightarrow> datetime option) \<Rightarrow> int \<Rightarrow> api \<Rightarrow> nat" where
  "get_inbound_online_count fromisoformat now a =
     (case do {
             all_resp \<leftarrow> get_all_users a;
             let all_users =
               (case all_resp of
                  JObj kvs \<Rightarrow>
                    if has_key kvs ''users''
                    then (if py_truthy (dict_get kvs ''users'') then dict_get kvs ''users''
                          else JArr [])
                    else JArr []
                | JArr xs \<Rightarrow> JArr xs
                | _ \<Rightarrow> JArr []);
             if \<not> py_truthy all_users then Some 0
             else do {
               users \<leftarrow> py_iter all_users;
               online_count \<leftarrow> online_loop fromisoformat now users;
               n \<leftarrow> py_len all_users;
               Some online_count
             }
           } of
        None \<Rightarrow> 0
      | Some online_count \<Rightarrow> online_count)"

text \<open>\<open>online_user\<close>: the test that the counting loop applies to one user.\<close>

definition online_user :: "(string \<Rightarrow> datetime option) \<Rightarrow> int \<Rightarrow> json \<Rightarrow> bool" where
  "online_user fromisoformat now user =
     (case user of
        JObj kvs \<Rightarrow> is_active_status (dict_get kvs ''status'')
                     \<and> is_recent now (parse_dt fromisoformat (dict_get kvs ''onlineAt'')) 5
      | _ \<Rightarrow> False)"

section \<open>The resolver scenario and other example data\<close>

text \<open>
  One inbound \<open>I1\<close>; profile \<open>P1\<close> contains it and profile \<open>P2\<close> does not; user \<open>U1\<close> is
  active with \<^verbatim>\<open>configProfileUuid = P1\<close>, \<open>U2\<close> is active with a subscription whose
  \<^verbatim>\<open>inbounds\<close> list holds \<^verbatim>\<open>{uuid: I1}\<close>, \<open>U3\<close> is inactive with \<^verbatim>\<open>configProfileUuid = P1\<close>.
\<close>

definition inbound_I1 :: json where
  "inbound_I1 = JObj [(''uuid'', JStr ''I1''), (''tag'', JStr ''vless-in''), (''type'', JStr ''vless''),
     (''port'', JInt 443)]"

definition user_U1 :: json where
  "user_U1 = JObj [(''uuid'', JStr ''U1''), (''username'', JStr ''u1''), (''status'', JStr ''ACTIVE''),
     (''configProfileUuid'', JStr ''P1'')]"

definition user_U2 :: json where
  "user_U2 = JObj [(''uuid'', JStr ''U2''), (''username'', JStr ''u2''), (''status'', JStr ''ACTIVE''),
     (''subscription'', JObj [(''inbounds'', JArr [JObj [(''uuid'', JStr ''I1'')]])])]"

definition user_U3 :: json where
  "user_U3 = JObj [(''uuid'', JStr ''U3''), (''username'', JStr ''u3''), (''status'', JStr ''DISABLED''),
     (''configProfileUuid'', JStr ''P1'')]"

definition scenario_profile_inbounds :: "json \<Rightarrow> json option" where
  "scenario_profile_inbounds profile_uuid =
     (if profile_uuid = JStr ''P1'' then Some (JArr [inbound_I1])
      else if profile_uuid = JStr ''P2''
      then Some (JArr [JObj [(''uuid'', JStr ''I2''), (''tag'', JStr ''trojan-in''),
                             (''type'', JStr ''trojan''), (''port'', JInt 8443)]])
      else Some JNull)"

definition scenario_profile_users :: "json \<Rightarrow> json option" where
  "scenario_profile_users profile_uuid =
     (if profile_uuid = JStr ''P1'' then Some (JArr [user_U1, user_U3]) else Some (JArr []))"

definition scenario :: api where
  "scenario =
     \<lparr>net = backend False (Raises ConnectError)
              (Responds (json_ok (JObj [(''response'',
                 JObj [(''total'', JInt 1), (''inbounds'', JArr [inbound_I1])])]))),
      get_all_users = Some (JArr [user_U1, user_U2, user_U3]),
      get_profiles = Some (JArr [JObj [(''uuid'', JStr ''P1'')], JObj [(''uuid'', JStr ''P2'')]]),
      get_profile_inbounds = scenario_profile_inbounds,
      get_profile_users = scenario_profile_users\<rparr>"

definition users_api :: "json list \<Rightarrow> api" where
  "users_api users =
     \<lparr>net = backend False (Raises ConnectError) (Raises ConnectError),
      get_all_users = Some (JArr users),
      get_profiles = Some (JArr []),
      get_profile_inbounds = (\<lambda>p. Some (JArr [])),
      get_profile_users = (\<lambda>p. Some (JArr []))\<rparr>"

definition sample_clock :: "string \<Rightarrow> datetime option" where
  "sample_clock text =
     (if text = ''2030-01-01T00:10:00+00:00''
      then Some \<lparr>wall_clock = 600000000, utcoffset = Some 0\<rparr>
      else None)"

section \<open>Properties\<close>

text \<open>
  C2. Envelope unwrap is a function of the payload alone, decided in a fixed order: a
  payload that is not an object is returned as it is; an object with key \<open>response\<close>
  gives that value; otherwise one with key \<open>data\<close> gives that value; otherwise one whose
  \<open>success\<close> is \<open>false\<close> and which has key \<open>error\<close> gives null; any other object is
  returned unchanged. In particular \<open>unwrap({response: X}) = X\<close>, \<open>unwrap({data: X}) = X\<close>
  and \<open>unwrap({success: false, error: e}) = null\<close>.
\<close>

theorem unwrap_response_payload_order:
  "(\<not> is_dict p \<longrightarrow> unwrap_response_payload p = p)
   \<and> (map_of kvs ''response'' = Some x \<longrightarrow> unwrap_response_payload (JObj kvs) = x)
   \<and> (map_of kvs ''response'' = None \<and> map_of kvs ''data'' = Some y
        \<longrightarrow> unwrap_response_payload (JObj kvs) = y)
   \<and> (map_of kvs ''response'' = None \<and> map_of kvs ''data'' = None
        \<and> map_of kvs ''success'' = Some (JBool False) \<and> map_of kvs ''error'' = Some e
        \<longrightarrow> unwrap_response_payload (JObj kvs) = JNull)
   \<and> (map_of kvs ''response'' = None \<and> map_of kvs ''data'' = None
        \<and> \<not> (map_of kvs ''success'' = Some (JBool False) \<and> map_of kvs ''error'' \<noteq> None)
        \<longrightarrow> unwrap_response_payload (JObj kvs) = JObj kvs)
   \<and> unwrap_response_payload (JObj [(''response'', x)]) = x
   \<and> unwrap_response_payload (JObj [(''data'', y)]) = y
   \<and> unwrap_response_payload (JObj [(''success'', JBool False), (''error'', e)]) = JNull"
proof -
  have non_object: "\<not> is_dict p \<longrightarrow> unwrap_response_payload p = p"
    by (cases p) simp_all
  have marked: "unwrap_response_payload (JObj [(''response'', x)]) = x"
    "unwrap_response_payload (JObj [(''data'', y)]) = y"
    "unwrap_response_payload (JObj [(''success'', JBool False), (''error'', e)]) = JNull"
    by (simp_all add: has_key_def dict_get_def)
  have unmarked: "map_of kvs ''response'' = None \<and> map_of kvs ''data'' = None
      \<and> \<not> (map_of kvs ''success'' = Some (JBool False) \<and> map_of kvs ''error'' \<noteq> None)
      \<longrightarrow> unwrap_response_payload (JObj kvs) = JObj kvs"
    by (auto simp: has_key_def dict_get_def split: option.splits)
  show ?thesis
    using non_object marked unmarked
    by (simp add: has_key_def dict_get_def)
qed

theorem unwrap_response_payload_order_witness:
  "\<not> is_dict (JStr ''ok'') \<and> unwrap_response_payload (JStr ''ok'') = JStr ''ok''
   \<and> unwrap_response_payload
        (JObj [(''total'', JInt 2), (''response'', JArr [JInt 1]), (''data'', JInt 7)])
      = JArr [JInt 1]
   \<and> unwrap_response_payload (JObj [(''total'', JInt 2), (''data'', JInt 7)]) = JInt 7
   \<and> unwrap_response_payload
        (JObj [(''success'', JBool False), (''error'', JStr ''e''), (''code'', JInt 3)])
      = JNull
   \<and> unwrap_response_payload (JObj [(''success'', JBool True), (''error'', JStr ''e'')])
      = JObj [(''success'', JBool True), (''error'', JStr ''e'')]"
  using unwrap_response_payload_order
          [of "JStr ''ok''"
              "[(''total'', JInt 2), (''response'', JArr [JInt 1]), (''data'', JInt 7)]"
              "JArr [JInt 1]" "JInt 7" "JStr ''e''"]
        unwrap_response_payload_order
          [of "JStr ''ok''" "[(''total'', JInt 2), (''data'', JInt 7)]"
              "JArr [JInt 1]" "JInt 7" "JStr ''e''"]
        unwrap_response_payload_order
          [of "JStr ''ok''"
              "[(''success'', JBool False), (''error'', JStr ''e''), (''code'', JInt 3)]"
              "JArr [JInt 1]" "JInt 7" "JStr ''e''"]
        unwrap_response_payload_order
          [of "JStr ''ok''" "[(''success'', JBool True), (''error'', JStr ''e'')]"
              "JArr [JInt 1]" "JInt 7" "JStr ''e''"]
  by simp

lemma split_on_not_Nil: "split_on sep s \<noteq> []"
  by (induction s) (auto split: list.splits)

lemma split_on_append: "split_on sep (xs @ sep # ys) = split_on sep xs @ split_on sep ys"
proof (induction xs)
  case Nil
  show ?case by simp
next
  case (Cons c xs)
  obtain w ws where "split_on sep xs = w # ws"
    using split_on_not_Nil [of sep xs] by (cases "split_on sep xs") auto
  with Cons show ?case by simp
qed

lemma api_path_has_api: "''api'' \<in> set (filter (\<lambda>part. part \<noteq> []) (split_on CHR ''/'' (api_path p)))"
proof -
  have tail: "split_on CHR ''/'' (path @ ''/api'') = split_on CHR ''/'' path @ [''api'']" for path
    using split_on_append [of "CHR ''/''" path "''api''"] by simp
  show ?thesis
    by (auto simp: api_path_def Let_def tail)
qed

text \<open>
  C9. Base URL normalization guarantees an \<open>/api\<close> path segment:
  \<open>http://host:3000\<close> becomes \<open>http://host:3000/api\<close>, \<open>http://host:3000/api\<close> is
  unchanged, and \<open>http://host:3000/api/\<close> becomes \<open>http://host:3000/api\<close>. In general
  the path handed to \<^verbatim>\<open>urlunparse\<close> has \<open>api\<close> among its segments.
\<close>

theorem normalize_api_base_url_examples:
  "normalize_api_base_url ''http://host:3000'' = Inr ''http://host:3000/api''
   \<and> normalize_api_base_url ''http://host:3000/api'' = Inr ''http://host:3000/api''
   \<and> normalize_api_base_url ''http://host:3000/api/'' = Inr ''http://host:3000/api''
   \<and> ''api'' \<in> set (filter (\<lambda>part. part \<noteq> []) (split_on CHR ''/'' (api_path p)))
   \<and> (strip v \<noteq> [] \<and> urlparse (strip v) = Inr parsed \<longrightarrow>
        normalize_api_base_url v
          = Inr (urlunparse (parsed\<lparr>url_path := api_path (url_path parsed)\<rparr>)))"
proof -
  have examples: "normalize_api_base_url ''http://host:3000'' = Inr ''http://host:3000/api''"
    "normalize_api_base_url ''http://host:3000/api'' = Inr ''http://host:3000/api''"
    "normalize_api_base_url ''http://host:3000/api/'' = Inr ''http://host:3000/api''"
    by code_simp+
  have general: "strip v \<noteq> [] \<and> urlparse (strip v) = Inr parsed \<longrightarrow>
      normalize_api_base_url v
        = Inr (urlunparse (parsed\<lparr>url_path := api_path (url_path parsed)\<rparr>))"
    by (simp add: normalize_api_base_url_def)
  from examples api_path_has_api [of p] general show ?thesis by blast
qed

theorem normalize_api_base_url_examples_witness:
  "normalize_api_base_url ''  https://panel.example/base/?x=1 ''
     = Inr ''https://panel.example/base/api?x=1''"
proof -
  have a: "strip ''  https://panel.example/base/?x=1 '' = ''https://panel.example/base/?x=1''"
    by code_simp
  have b: "urlparse ''https://panel.example/base/?x=1''
      = Inr \<lparr>url_scheme = ''https'', url_netloc = ''panel.example'', url_path = ''/base/'',
              url_params = '''', url_query = ''x=1'', url_fragment = ''''\<rparr>"
    by code_simp
  have c: "urlunparse (\<lparr>url_scheme = ''https'', url_netloc = ''panel.example'', url_path = ''/base/'',
              url_params = '''', url_query = ''x=1'', url_fragment = ''''\<rparr>
              \<lparr>url_path := api_path ''/base/''\<rparr>) = ''https://panel.example/base/api?x=1''"
    by code_simp
  from normalize_api_base_url_examples
         [of "''/base/''" "''  https://panel.example/base/?x=1 ''"
             "\<lparr>url_scheme = ''https'', url_netloc = ''panel.example'', url_path = ''/base/'',
              url_params = '''', url_query = ''x=1'', url_fragment = ''''\<rparr>"]
       a b c
  show ?thesis by simp
qed

subsection \<open>The request engine, one attempt at a time\<close>

lemma select_clause_total: "select_clause e \<noteq> None"
  by (cases e) (simp_all add: select_clause_def except_clauses_def)




lemma select_clause_http: "select_clause (HTTPStatusError s) = Some On_HTTPStatusError"
  by (simp add: select_clause_def except_clauses_def)

lemma try_body_unblocked:
  assumes "a = 0 \<longrightarrow> \<not> preflight_blocks env"
  shows "try_body env rq rc a =
     (case send env rq a of
        Raises e \<Rightarrow> (checked env a @ [Request a], Raise e)
      | Responds r \<Rightarrow>
          if 500 \<le> status_code r \<and> int a < rc - 1
          then (checked env a @ [Request a, Sleep (2 ^ a)], Continue)
          else if \<not> is_success r
          then (checked env a @ [Request a], Raise (HTTPStatusError (status_code r)))
          else if status_code r = 204 \<or> status_code r = 205
          then (checked env a @ [Request a], Return JNull)
          else if \<not> contains ''application/json'' (lower (content_type r))
          then (checked env a @ [Request a], Return JNull)
          else if strip (resp_text r) = []
          then (checked env a @ [Request a], Return JNull)
          else (case resp_json r of
                  None \<Rightarrow> (checked env a @ [Request a], Raise OtherException)
                | Some j \<Rightarrow> (checked env a @ [Request a], Return (unwrap_response_payload j))))"
proof -
  have nb: "\<not> (api_preflight env \<and> a = 0 \<and> \<not> test_connection env)"
    using assms by (auto simp: preflight_blocks_def)
  show ?thesis
    unfolding try_body_def checked_def Let_def by (subst if_not_P [OF nb]) (rule refl)
qed

lemma attempt_step_server_error:
  assumes "a = 0 \<longrightarrow> \<not> preflight_blocks env" and "server_error (send env rq a)"
  shows "attempt_step env rq rc a =
     (if int a < rc - 1 then (checked env a @ [Request a, Sleep (2 ^ a)], Continue)
      else (checked env a @ [Request a], Return JNull))"
proof -
  from assms(2) obtain r where r: "send env rq a = Responds r" "500 \<le> status_code r"
    by (auto simp: server_error_def split: net_result.splits)
  then have bad: "\<not> is_success r" "status_code r \<noteq> 404"
    by (simp_all add: is_success_def)
  show ?thesis
    using r bad
    by (simp add: attempt_step_def try_body_unblocked [OF assms(1)] except_handler_def
          select_clause_http on_http_status_error_def)
qed

lemma attempt_step_client_error:
  assumes "a = 0 \<longrightarrow> \<not> preflight_blocks env" and "send env rq a = Responds r"
    and "400 \<le> status_code r" and "status_code r < 500"
  shows "attempt_step env rq rc a = (checked env a @ [Request a], Return JNull)"
proof -
  from assms(3,4) have bad: "\<not> is_success r" "\<not> 500 \<le> status_code r"
    by (simp_all add: is_success_def)
  show ?thesis
    using assms(2) bad
    by (simp add: attempt_step_def try_body_unblocked [OF assms(1)] except_handler_def
          select_clause_http on_http_status_error_def)
qed

lemma attempt_step_raises:
  assumes "a = 0 \<longrightarrow> \<not> preflight_blocks env" and "send env rq a = Raises e"
  shows "attempt_step env rq rc a =
     (checked env a @ [Request a] @ fst (except_handler e rc a), snd (except_handler e rc a))"
  using assms(2)
  by (simp add: attempt_step_def try_body_unblocked [OF assms(1)] split: prod.splits)

lemma main_events_append: "main_events (xs @ ys) = main_events xs @ main_events ys"
  by (simp add: main_events_def)

lemma main_events_checked: "main_events (checked env a) = []"
  by (simp add: main_events_def checked_def)

lemma backoff_schedule_step:
  "a \<le> m \<Longrightarrow> backoff_schedule rc a (Suc m) =
     backoff_schedule rc a m @ (Request m # (if int m < rc - 1 then [Sleep (2 ^ m)] else []))"
  by (simp add: backoff_schedule_def)

lemma attempts_server_errors:
  assumes "a = 0 \<longrightarrow> \<not> preflight_blocks env"
    and "\<forall>k. a \<le> k \<and> k < a + n \<longrightarrow> server_error (send env rq k)"
    and "int (a + n) < rc"
  shows "\<exists>tr'. attempts env rq rc a tr = attempts env rq rc (a + n) tr'
           \<and> main_events tr' = main_events tr @ backoff_schedule rc a (a + n)"
  using assms(2,3)
proof (induction n)
  case 0
  show ?case by (rule exI [of _ tr]) (simp add: backoff_schedule_def)
next
  case (Suc n)
  then obtain tr' where tr': "attempts env rq rc a tr = attempts env rq rc (a + n) tr'"
      "main_events tr' = main_events tr @ backoff_schedule rc a (a + n)"
    by auto
  from Suc.prems have lt: "int (a + n) < rc - 1" and five: "server_error (send env rq (a + n))"
    by simp_all
  from assms(1) have nb: "a + n = 0 \<longrightarrow> \<not> preflight_blocks env" by simp
  have step: "attempt_step env rq rc (a + n) =
      (checked env (a + n) @ [Request (a + n), Sleep (2 ^ (a + n))], Continue)"
    using attempt_step_server_error [OF nb five, of rc] lt by simp
  have "attempts env rq rc (a + n) tr' =
      attempts env rq rc (a + Suc n)
        (tr' @ checked env (a + n) @ [Request (a + n), Sleep (2 ^ (a + n))])"
    using lt step by (subst attempts.simps) simp
  moreover have "main_events (tr' @ checked env (a + n) @ [Request (a + n), Sleep (2 ^ (a + n))])
      = main_events tr @ backoff_schedule rc a (a + Suc n)"
    using tr'(2) lt
    by (simp add: main_events_append main_events_checked backoff_schedule_step)
       (simp add: main_events_def)
  ultimately show ?case using tr'(1) by auto
qed

lemma attempts_extends: "\<exists>ext. snd (attempts env rq rc a tr) = tr @ ext"
proof (induction env rq rc a tr rule: attempts.induct)
  case (1 env rq rc a tr)
  show ?case
  proof (cases "int a < rc")
    case False
    then show ?thesis by (simp add: attempts.simps)
  next
    case True
    obtain evs c where st: "attempt_step env rq rc a = (evs, c)"
      by (cases "attempt_step env rq rc a")
    show ?thesis
    proof (cases c)
      case Continue
      from "1.IH" [OF True st [symmetric] Continue]
      obtain ext where "snd (attempts env rq rc (Suc a) (tr @ evs)) = (tr @ evs) @ ext" by auto
      with True st Continue show ?thesis by (subst attempts.simps) simp
    next
      case (Return v)
      with True st show ?thesis by (subst attempts.simps) simp
    next
      case (Raise e)
      with True st show ?thesis by (subst attempts.simps) simp
    qed
  qed
qed

lemma attempts_exhausted:
  assumes "a = 0 \<longrightarrow> \<not> preflight_blocks env"
    and "\<forall>k. a \<le> k \<and> int k < rc \<longrightarrow> server_error (send env rq k)"
    and "int a < rc"
  shows "\<exists>tr'. attempts env rq rc a tr = (Returned JNull, tr')
           \<and> main_events tr' = main_events tr @ backoff_schedule rc a (nat rc)"
proof -
  define n where "n = nat rc - 1 - a"
  have last: "a + n = nat rc - 1" "int (a + n) < rc" "\<not> int (a + n) < rc - 1"
    using assms(3) by (simp_all add: n_def)
  have "\<forall>k. a \<le> k \<and> k < a + n \<longrightarrow> server_error (send env rq k)"
    using assms(2) last by auto
  from attempts_server_errors [OF assms(1) this last(2), of tr]
  obtain tr' where tr': "attempts env rq rc a tr = attempts env rq rc (a + n) tr'"
      "main_events tr' = main_events tr @ backoff_schedule rc a (a + n)"
    by auto
  from assms(1) have nb: "a + n = 0 \<longrightarrow> \<not> preflight_blocks env" by simp
  have five: "server_error (send env rq (a + n))"
    using assms(2) last by simp
  have step: "attempt_step env rq rc (a + n) = (checked env (a + n) @ [Request (a + n)], Return JNull)"
    using attempt_step_server_error [OF nb five, of rc] last by simp
  have run: "attempts env rq rc (a + n) tr' =
      (Returned JNull, tr' @ checked env (a + n) @ [Request (a + n)])"
    using last step by (subst attempts.simps) simp
  have "Suc (a + n) = nat rc" using last assms(3) by simp
  then have "backoff_schedule rc a (nat rc) = backoff_schedule rc a (a + n) @ [Request (a + n)]"
    using backoff_schedule_step [of a "a + n" rc] last by simp
  then have "main_events (tr' @ checked env (a + n) @ [Request (a + n)])
      = main_events tr @ backoff_schedule rc a (nat rc)"
    using tr'(2) by (simp add: main_events_append main_events_checked) (simp add: main_events_def)
  with tr'(1) run show ?thesis by simp
qed


lemma except_handler_events: "Preflight \<notin> set (fst (except_handler e rc a))"
  by (cases e)
     (simp_all add: except_handler_def select_clause_def except_clauses_def
        retry_or_give_up_def on_http_status_error_def)

lemma try_body_blocked:
  assumes "preflight_blocks env"
  shows "try_body env rq rc 0 =
     (if rc \<le> 1 then ([Preflight], Return JNull) else ([Preflight, Sleep 2], Continue))"
  using assms by (simp add: try_body_def preflight_blocks_def)

lemma attempt_step_blocked:
  assumes "preflight_blocks env"
  shows "attempt_step env rq rc 0 =
     (if rc \<le> 1 then ([Preflight], Return JNull) else ([Preflight, Sleep 2], Continue))"
  by (simp add: attempt_step_def try_body_blocked [OF assms])

lemma try_body_events:
  assumes "a = 0 \<longrightarrow> \<not> preflight_blocks env"
  shows "\<exists>evs. fst (try_body env rq rc a) = checked env a @ Request a # evs
           \<and> Preflight \<notin> set evs"
proof (cases "send env rq a")
  case (Raises e)
  then show ?thesis by (simp add: try_body_unblocked [OF assms])
next
  case (Responds r)
  then show ?thesis
    by (cases "resp_json r") (simp_all add: try_body_unblocked [OF assms])
qed

lemma attempt_step_events:
  assumes "a = 0 \<longrightarrow> \<not> preflight_blocks env"
  shows "\<exists>evs. fst (attempt_step env rq rc a) = checked env a @ Request a # evs
           \<and> Preflight \<notin> set evs"
proof -
  from try_body_events [OF assms, of rq rc]
  obtain evs where evs: "fst (try_body env rq rc a) = checked env a @ Request a # evs"
      "Preflight \<notin> set evs"
    by auto
  obtain t c where tb: "try_body env rq rc a = (t, c)" by (cases "try_body env rq rc a")
  show ?thesis
  proof (cases c)
    case (Raise e)
    obtain evs' c' where h: "except_handler e rc a = (evs', c')"
      by (cases "except_handler e rc a")
    with except_handler_events [of e rc a] have "Preflight \<notin> set evs'" by simp
    with evs tb Raise h show ?thesis by (simp add: attempt_step_def)
  qed (use evs tb in \<open>simp_all add: attempt_step_def\<close>)
qed

lemma attempts_no_preflight:
  "0 < a \<Longrightarrow> \<exists>ext. snd (attempts env rq rc a tr) = tr @ ext \<and> Preflight \<notin> set ext"
proof (induction env rq rc a tr rule: attempts.induct)
  case (1 env rq rc a tr)
  show ?case
  proof (cases "int a < rc")
    case False
    then show ?thesis by (simp add: attempts.simps)
  next
    case True
    from "1.prems" have nb: "a = 0 \<longrightarrow> \<not> preflight_blocks env" by simp
    obtain evs c where st: "attempt_step env rq rc a = (evs, c)"
      by (cases "attempt_step env rq rc a")
    from attempt_step_events [OF nb, of rq rc] st "1.prems"
    have clean: "Preflight \<notin> set evs" by (auto simp: checked_def)
    show ?thesis
    proof (cases c)
      case Continue
      from "1.IH" [OF True st [symmetric] Continue]
      obtain ext where "snd (attempts env rq rc (Suc a) (tr @ evs)) = (tr @ evs) @ ext"
          "Preflight \<notin> set ext"
        by auto
      with True st Continue clean show ?thesis by (subst attempts.simps) simp
    next
      case (Return v)
      with True st clean show ?thesis by (subst attempts.simps) simp
    next
      case (Raise e)
      with True st clean show ?thesis by (subst attempts.simps) simp
    qed
  qed
qed



lemma requests_in_backoff_schedule:
  "a \<le> m \<Longrightarrow> requests_in (backoff_schedule rc a m) = m - a"
proof (induction m)
  case 0
  then show ?case by (simp add: backoff_schedule_def requests_in_def)
next
  case (Suc m)
  show ?case
  proof (cases "a \<le> m")
    case True
    with Suc.IH show ?thesis
      by (simp add: backoff_schedule_step requests_in_def)
  next
    case False
    with Suc.prems have "a = Suc m" by simp
    then show ?thesis by (simp add: backoff_schedule_def requests_in_def)
  qed
qed

lemma attempts_first_request:
  assumes "a = 0 \<longrightarrow> \<not> preflight_blocks env" and "int a < rc"
  shows "\<exists>ext. snd (attempts env rq rc a tr) = tr @ checked env a @ Request a # ext
           \<and> Preflight \<notin> set ext"
proof -
  obtain evs c where st: "attempt_step env rq rc a = (evs, c)"
    by (cases "attempt_step env rq rc a")
  from attempt_step_events [OF assms(1), of rq rc] st
  obtain rest where rest: "evs = checked env a @ Request a # rest" "Preflight \<notin> set rest"
    by auto
  show ?thesis
  proof (cases c)
    case Continue
    from attempts_no_preflight [of "Suc a" env rq rc "tr @ evs"]
    obtain ext where "snd (attempts env rq rc (Suc a) (tr @ evs)) = (tr @ evs) @ ext"
        "Preflight \<notin> set ext"
      by auto
    with assms(2) st Continue rest show ?thesis by (subst attempts.simps) simp
  next
    case (Return v)
    with assms(2) st rest show ?thesis by (subst attempts.simps) simp
  next
    case (Raise e)
    with assms(2) st rest show ?thesis by (subst attempts.simps) simp
  qed
qed

subsection \<open>Properties of the request engine\<close>

text \<open>
  C3 (as the code has it). While the backend answers with a status of 500 or above, the
  engine retries: when the preflight check is disabled or passes and the first \<open>n\<close>
  responses are server errors, the engine makes the attempts
  \<open>0, \<dots>, min(retry_count, n) - 1\<close>, that is exactly \<open>min(retry_count, n)\<close> of them,
  sleeping \<open>2 ^ attempt\<close> seconds after each one that is followed by another attempt; when
  the budget is exhausted (\<open>retry_count \<le> n\<close>) these are all its requests and sleeps and
  it returns null.
\<close>

theorem server_error_retries:
  assumes "\<not> preflight_blocks env"
    and "\<forall>k<n. server_error (send env (build_request env method endpoint data params) k)"
  shows "(\<exists>ext. main_events (snd (make_request env method endpoint data params rc))
            = backoff_schedule rc 0 (min (nat rc) n) @ ext)
    \<and> requests_in (backoff_schedule rc 0 (min (nat rc) n)) = min (nat rc) n
    \<and> (rc \<le> int n \<longrightarrow>
          fst (make_request env method endpoint data params rc) = Returned JNull
          \<and> main_events (snd (make_request env method endpoint data params rc))
              = backoff_schedule rc 0 (nat rc))"
proof -
  define rq where "rq = build_request env method endpoint data params"
  have run: "make_request env method endpoint data params rc = attempts env rq rc 0 []"
    by (simp add: make_request_def rq_def)
  have nb: "(0::nat) = 0 \<longrightarrow> \<not> preflight_blocks env" using assms(1) by simp
  have five: "\<forall>k<n. server_error (send env rq k)" using assms(2) by (simp add: rq_def)
  have count: "requests_in (backoff_schedule rc 0 (min (nat rc) n)) = min (nat rc) n"
    using requests_in_backoff_schedule [of 0 "min (nat rc) n" rc] by simp
  have exhausted: "fst (attempts env rq rc 0 []) = Returned JNull
      \<and> main_events (snd (attempts env rq rc 0 [])) = backoff_schedule rc 0 (nat rc)"
    if le: "rc \<le> int n"
  proof (cases "0 < rc")
    case True
    have "\<forall>k. 0 \<le> k \<and> int k < rc \<longrightarrow> server_error (send env rq k)"
      using five le by auto
    from attempts_exhausted [OF nb this, of "[]"] True show ?thesis
      by (auto simp: main_events_def)
  next
    case False
    then show ?thesis
      by (simp add: attempts.simps main_events_def backoff_schedule_def)
  qed
  have "\<exists>ext. main_events (snd (attempts env rq rc 0 []))
      = backoff_schedule rc 0 (min (nat rc) n) @ ext"
  proof (cases "rc \<le> int n")
    case True
    then have "min (nat rc) n = nat rc" by simp
    with exhausted [OF True] show ?thesis by simp
  next
    case False
    then have m: "min (nat rc) n = n" and lt: "int (0 + n) < rc" by simp_all
    have "\<forall>k. 0 \<le> k \<and> k < 0 + n \<longrightarrow> server_error (send env rq k)"
      using five by simp
    from attempts_server_errors [OF nb this lt, of "[]"]
    obtain tr' where tr': "attempts env rq rc 0 [] = attempts env rq rc n tr'"
        "main_events tr' = backoff_schedule rc 0 n"
      by (auto simp: main_events_def)
    from attempts_extends [of env rq rc n tr']
    obtain ext where "snd (attempts env rq rc n tr') = tr' @ ext" by auto
    with tr' m show ?thesis by (simp add: main_events_append)
  qed
  with count exhausted run show ?thesis by simp
qed

theorem server_error_retries_witness:
  "fst (make_request (backend False (Raises ConnectError) (Responds (status_only 503)))
          ''GET'' ''users'' JNull JNull 3) = Returned JNull
   \<and> main_events (snd (make_request (backend False (Raises ConnectError)
          (Responds (status_only 503))) ''GET'' ''users'' JNull JNull 3))
       = [Request 0, Sleep 1, Request 1, Sleep 2, Request 2]"
proof -
  let ?env = "backend False (Raises ConnectError) (Responds (status_only 503))"
  have open_: "\<not> preflight_blocks ?env"
    by (simp add: preflight_blocks_def backend_def)
  have five: "\<forall>k<5. server_error
      (send ?env (build_request ?env ''GET'' ''users'' JNull JNull) k)"
    by (simp add: backend_def always_def server_error_def status_only_def)
  have sched: "backoff_schedule 3 0 (nat 3) = [Request 0, Sleep 1, Request 1, Sleep 2, Request 2]"
    by (simp add: backoff_schedule_def upt_rec)
  from server_error_retries [OF open_ five, of 3] sched show ?thesis by simp
qed

text \<open>
  With the preflight check enabled and failing, a backend that answers every request
  with status 503 and a budget of three attempts: the first attempt is spent on the
  failed check, so the engine sends two requests, not three, and its first delay is the
  fixed 2 seconds, not \<open>2 ^ 0\<close>.
\<close>

theorem preflight_spends_attempt_counterexample:
  "make_request (backend True (Responds (status_only 503)) (Responds (status_only 503)))
     ''GET'' ''users'' JNull JNull 3
   = (Returned JNull, [Preflight, Sleep 2, Request 1, Sleep 2, Request 2])
   \<and> requests_in (snd (make_request
         (backend True (Responds (status_only 503)) (Responds (status_only 503)))
         ''GET'' ''users'' JNull JNull 3)) = 2"
  by code_simp



text \<open>
  C5. A response with status 404, or with any other status from 400 to 499, makes the
  engine return null in that same attempt: the request of the attempt is the last event,
  with no sleep and no further attempt.
\<close>

theorem client_error_no_retry:
  assumes "send env rq a = Responds r"
    and "status_code r = 404 \<or> (400 \<le> status_code r \<and> status_code r < 500)"
    and "int a < rc"
    and "a = 0 \<longrightarrow> \<not> preflight_blocks env"
  shows "attempts env rq rc a tr = (Returned JNull, tr @ checked env a @ [Request a])"
proof -
  from assms(2) have "400 \<le> status_code r" "status_code r < 500" by auto
  from attempt_step_client_error [OF assms(4) assms(1) this, of rc] assms(3)
  show ?thesis by (subst attempts.simps) simp
qed

theorem client_error_no_retry_witness:
  "make_request (backend False (Raises ConnectError) (Responds (status_only 404)))
     ''GET'' ''users/unknown'' JNull JNull 3 = (Returned JNull, [Request 0])"
proof -
  let ?env = "backend False (Raises ConnectError) (Responds (status_only 404))"
  let ?rq = "build_request ?env ''GET'' ''users/unknown'' JNull JNull"
  have a: "send ?env ?rq 0 = Responds (status_only 404)"
    by (simp add: backend_def always_def)
  have b: "status_code (status_only 404) = 404
      \<or> (400 \<le> status_code (status_only 404) \<and> status_code (status_only 404) < 500)"
    by (simp add: status_only_def)
  have c: "int 0 < 3" by simp
  have d: "(0::nat) = 0 \<longrightarrow> \<not> preflight_blocks ?env"
    by (simp add: preflight_blocks_def backend_def)
  from client_error_no_retry [OF a b c d, of "[]"] show ?thesis
    by (simp add: make_request_def checked_def backend_def)
qed

text \<open>
  C7 (as the code has it). When the preflight check is enabled it is issued once, before
  the first attempt only. When it fails, the main call of that attempt is skipped and
  the engine either aborts with null (\<open>retry_count \<le> 1\<close>) or waits 2 seconds and goes on
  to the next attempt, which issues the main request without another preflight check.
\<close>

theorem preflight_only_before_first_attempt:
  assumes "api_preflight env"
  shows "(0 < rc \<longrightarrow>
            (\<exists>ext. snd (make_request env method endpoint data params rc) = Preflight # ext
                   \<and> Preflight \<notin> set ext))
    \<and> (\<not> test_connection env \<and> rc \<le> 1 \<longrightarrow>
            fst (make_request env method endpoint data params rc) = Returned JNull
            \<and> requests_in (snd (make_request env method endpoint data params rc)) = 0)
    \<and> (\<not> test_connection env \<and> 1 < rc \<longrightarrow>
            (\<exists>ext. snd (make_request env method endpoint data params rc)
                     = [Preflight, Sleep 2, Request 1] @ ext
                   \<and> Preflight \<notin> set ext))"
proof -
  define rq where "rq = build_request env method endpoint data params"
  have run: "make_request env method endpoint data params rc = attempts env rq rc 0 []"
    by (simp add: make_request_def rq_def)
  have down_once: "attempts env rq rc 0 [] = (Returned JNull, [Preflight])"
    if "\<not> test_connection env" "rc = 1"
  proof -
    from that assms have "preflight_blocks env" by (simp add: preflight_blocks_def)
    from attempt_step_blocked [OF this, of rq rc] that show ?thesis
      by (subst attempts.simps) simp
  qed
  have down_retry: "\<exists>ext. snd (attempts env rq rc 0 []) = [Preflight, Sleep 2, Request 1] @ ext
      \<and> Preflight \<notin> set ext"
    if "\<not> test_connection env" "1 < rc"
  proof -
    from that assms have "preflight_blocks env" by (simp add: preflight_blocks_def)
    from attempt_step_blocked [OF this, of rq rc] that
    have "attempts env rq rc 0 [] = attempts env rq rc (Suc 0) [Preflight, Sleep 2]"
      by (subst attempts.simps) simp
    moreover have "(Suc 0 = 0 \<longrightarrow> \<not> preflight_blocks env)" and "int (Suc 0) < rc"
      using that by simp_all
    from attempts_first_request [OF this, of rq "[Preflight, Sleep 2]"]
    have "\<exists>ext. snd (attempts env rq rc (Suc 0) [Preflight, Sleep 2])
        = [Preflight, Sleep 2, Request 1] @ ext \<and> Preflight \<notin> set ext"
      by (simp add: checked_def)
    ultimately show ?thesis by simp
  qed
  have first: "\<exists>ext. snd (attempts env rq rc 0 []) = Preflight # ext \<and> Preflight \<notin> set ext"
    if pos: "0 < rc"
  proof (cases "preflight_blocks env")
    case True
    then have down: "\<not> test_connection env" by (simp add: preflight_blocks_def)
    show ?thesis
    proof (cases "rc = 1")
      case True
      with down_once [OF down] show ?thesis by simp
    next
      case False
      with pos have "1 < rc" by simp
      from down_retry [OF down this] show ?thesis by auto
    qed
  next
    case False
    then have "(0::nat) = 0 \<longrightarrow> \<not> preflight_blocks env" by simp
    moreover from pos have "int 0 < rc" by simp
    ultimately show ?thesis
      using attempts_first_request [of 0 env rc rq "[]"] assms by (auto simp: checked_def)
  qed
  have abort: "fst (attempts env rq rc 0 []) = Returned JNull
      \<and> requests_in (snd (attempts env rq rc 0 [])) = 0"
    if "\<not> test_connection env" "rc \<le> 1"
  proof (cases "rc = 1")
    case True
    with down_once [OF that(1)] show ?thesis by (simp add: requests_in_def)
  next
    case False
    with that have "\<not> int 0 < rc" by simp
    then show ?thesis by (simp add: attempts.simps requests_in_def)
  qed
  from first abort down_retry run show ?thesis by simp
qed

theorem preflight_only_before_first_attempt_witness:
  "snd (make_request (backend True (Raises ConnectError) (Responds (json_ok (JObj [(''response'', JInt 3)]))))
          ''GET'' ''users'' JNull JNull 2) = [Preflight, Sleep 2, Request 1]
   \<and> fst (make_request (backend True (Raises ConnectError) (Responds (json_ok (JObj [(''response'', JInt 3)]))))
          ''GET'' ''users'' JNull JNull 1) = Returned JNull"
proof -
  let ?env = "backend True (Raises ConnectError) (Responds (json_ok (JObj [(''response'', JInt 3)])))"
  have on: "api_preflight ?env" by (simp add: backend_def)
  have down: "\<not> test_connection ?env" by (simp add: backend_def test_connection_def)
  have tr: "snd (make_request ?env ''GET'' ''users'' JNull JNull 2) = [Preflight, Sleep 2, Request 1]"
    by code_simp
  from preflight_only_before_first_attempt [OF on, of 1 "''GET''" "''users''" JNull JNull] down tr
  show ?thesis by simp
qed

text \<open>
  With the preflight check enabled and failing and a budget of two attempts, the engine
  checks once, sleeps 2 seconds and sends the main request in attempt 1: the preflight
  check is not repeated before the main request.
\<close>

theorem preflight_not_repeated_counterexample:
  "make_request (backend True (Raises ConnectError) (Responds (json_ok (JObj [(''response'', JInt 3)]))))
     ''GET'' ''users'' JNull JNull 2
   = (Returned (JInt 3), [Preflight, Sleep 2, Request 1])"
  by code_simp

text \<open>
  C8 (as the code has it). When an attempt that is not the last one fails with a
  connection error or a protocol error, the engine sleeps \<open>2 ^ attempt\<close> seconds before
  the next attempt; when it fails with a generic timeout or a read timeout, it sleeps
  \<open>min (2 ^ attempt) 10\<close> seconds.
\<close>

theorem network_failure_backoff:
  assumes "send env rq a = Raises e"
    and "int a < rc - 1"
    and "a = 0 \<longrightarrow> \<not> preflight_blocks env"
  shows "(e = ConnectError \<or> e = RemoteProtocolError \<longrightarrow>
            attempt_step env rq rc a = (checked env a @ [Request a, Sleep (2 ^ a)], Continue))
    \<and> (e = TimeoutException \<or> e = ReadTimeout \<longrightarrow>
            attempt_step env rq rc a
              = (checked env a @ [Request a, Sleep (min (2 ^ a) 10)], Continue))"
  using assms(2) attempt_step_raises [OF assms(3) assms(1), of rc]
  by (auto simp: except_handler_def select_clause_def except_clauses_def retry_or_give_up_def)

theorem network_failure_backoff_witness:
  "attempt_step (backend False (Raises ConnectError) (Raises ReadTimeout))
      (build_request (backend False (Raises ConnectError) (Raises ReadTimeout))
         ''GET'' ''users'' JNull JNull) 6 4
   = ([Request 4, Sleep 10], Continue)"
proof -
  let ?env = "backend False (Raises ConnectError) (Raises ReadTimeout)"
  let ?rq = "build_request ?env ''GET'' ''users'' JNull JNull"
  have a: "send ?env ?rq 4 = Raises ReadTimeout" by (simp add: backend_def always_def)
  have b: "int 4 < 6 - 1" by simp
  have c: "(4::nat) = 0 \<longrightarrow> \<not> preflight_blocks ?env" by simp
  from network_failure_backoff [OF a b c] show ?thesis
    by (simp add: checked_def)
qed

text \<open>
  A generic timeout in every attempt of a budget of six: the sleep after attempt 4 is
  10 seconds, not \<open>2 ^ 4 = 16\<close>, so the cap is not limited to read timeouts.
\<close>

theorem timeout_backoff_capped_counterexample:
  "snd (make_request (backend False (Raises ConnectError) (Raises TimeoutException))
          ''GET'' ''users'' JNull JNull 6)
   = [Request 0, Sleep 1, Request 1, Sleep 2, Request 2, Sleep 4, Request 3, Sleep 8,
      Request 4, Sleep 10, Request 5]"
  by code_simp

subsection \<open>Properties of the resolver and of the online count\<close>

lemma port_ok_iff:
  "port_ok ref t = Some True \<longleftrightarrow>
     port_of ref \<noteq> JNull \<and> port_of t \<noteq> JNull
     \<and> (\<exists>p. py_int (port_of ref) = Some p \<and> py_int (port_of t) = Some p)"
  by (auto simp: port_ok_def split: Option.bind_splits)

text \<open>
  C6 (as the code has it). A bare string reference matches when it equals the requested
  UUID. A dictionary reference matches when its UUID (as a string) equals the requested
  UUID; otherwise, whatever UUID it carries, it matches when the target record is known
  and tag, port and type all agree, the port of each side being its \<^verbatim>\<open>port\<close> field or,
  when that is absent, its \<^verbatim>\<open>listenPort\<close> field.
\<close>

theorem matches_inbound_ref_rule:
  "(matches_inbound_ref inbound_uuid (JStr s) tgt \<longleftrightarrow> s = inbound_uuid)
   \<and> (matches_inbound_ref inbound_uuid (JObj ref) tgt \<longleftrightarrow>
        py_str (dict_get ref ''uuid'') = inbound_uuid
        \<or> (\<exists>t. tgt = JObj t \<and> t \<noteq> [] \<and> tag_ok ref t \<and> type_ok ref t
               \<and> port_of ref \<noteq> JNull \<and> port_of t \<noteq> JNull
               \<and> (\<exists>p. py_int (port_of ref) = Some p \<and> py_int (port_of t) = Some p)))
   \<and> (port_of ref = (if dict_get ref ''port'' \<noteq> JNull then dict_get ref ''port''
                      else dict_get ref ''listenPort''))"
proof -
  have "matches_inbound_ref inbound_uuid (JObj ref) tgt \<longleftrightarrow>
      py_str (dict_get ref ''uuid'') = inbound_uuid
      \<or> (\<exists>t. tgt = JObj t \<and> t \<noteq> [] \<and> tag_ok ref t \<and> type_ok ref t
             \<and> port_ok ref t = Some True)"
    by (cases tgt) (auto split: option.splits)
  then show ?thesis
    by (simp add: port_ok_iff port_of_def)
qed

theorem matches_inbound_ref_rule_witness:
  "matches_inbound_ref ''I1''
     (JObj [(''tag'', JStr ''vless-in''), (''type'', JStr ''vless''), (''listenPort'', JStr ''443'')])
     inbound_I1
   \<and> \<not> matches_inbound_ref ''I1''
     (JObj [(''tag'', JStr ''vless-in''), (''type'', JStr ''vless''), (''listenPort'', JStr ''444'')])
     inbound_I1
   \<and> matches_inbound_ref ''I1'' (JObj [(''uuid'', JStr ''I1'')]) JNull"
proof -
  have a: "matches_inbound_ref ''I1''
     (JObj [(''tag'', JStr ''vless-in''), (''type'', JStr ''vless''), (''listenPort'', JStr ''443'')])
     inbound_I1"
    by code_simp
  have b: "\<not> matches_inbound_ref ''I1''
     (JObj [(''tag'', JStr ''vless-in''), (''type'', JStr ''vless''), (''listenPort'', JStr ''444'')])
     inbound_I1"
    by code_simp
  have "py_str (dict_get [(''uuid'', JStr ''I1'')] ''uuid'') = ''I1''"
    by (simp add: dict_get_def py_str_def)
  with matches_inbound_ref_rule [of "''I1''" "''I1''" JNull "[(''uuid'', JStr ''I1'')]"] a b
  show ?thesis by blast
qed

text \<open>
  A reference with UUID \<open>I2\<close> and the tag, type and port of the target \<open>I1\<close> matches
  \<open>I1\<close>: the fallback is not limited to references without a UUID.
\<close>

theorem fallback_despite_other_uuid_counterexample:
  "matches_inbound_ref ''I1''
     (JObj [(''uuid'', JStr ''I2''), (''tag'', JStr ''vless-in''), (''type'', JStr ''vless''),
            (''port'', JInt 443)])
     inbound_I1"
  by code_simp

text \<open>
  C1. In the resolver scenario \<^verbatim>\<open>get_inbound_users(I1)\<close> is specified to return exactly
  \<open>U1\<close> and \<open>U2\<close>. The code returns \<open>U2\<close> alone: the expression that reads the config
  profile of a subscription or user yields \<^verbatim>\<open>None\<close> for \<open>U1\<close>, because its conditional
  binds weaker than its \<^verbatim>\<open>or\<close> and \<open>U1\<close> has no \<^verbatim>\<open>configProfile\<close> dictionary.
\<close>

theorem resolver_scenario_result:
  "get_inbound_users scenario ''I1'' = [user_U2]
   \<and> config_profile_expr [(''uuid'', JStr ''U1''), (''username'', JStr ''u1''),
        (''status'', JStr ''ACTIVE''), (''configProfileUuid'', JStr ''P1'')] = JNull"
  by code_simp

lemma online_loop_dicts:
  "list_all is_dict users \<Longrightarrow>
   online_loop f now users = Some (length (filter (online_user f now) users))"
proof (induction users)
  case Nil
  then show ?case by simp
next
  case (Cons user users)
  then obtain kvs where "user = JObj kvs" by (cases user) simp_all
  with Cons show ?case by (simp add: online_user_def)
qed

lemma online_count_dicts:
  assumes "get_all_users a = Some (JArr users)" and "list_all is_dict users"
  shows "get_inbound_online_count f now a = length (filter (online_user f now) users)"
proof (cases users)
  case Nil
  with assms(1) show ?thesis by (simp add: get_inbound_online_count_def)
next
  case (Cons u us)
  with assms(1) online_loop_dicts [OF assms(2), of f now] show ?thesis
    by (simp add: get_inbound_online_count_def)
qed

text \<open>
  C10. An active user whose \<^verbatim>\<open>onlineAt\<close> parses to a time after the current time passes the
  recency test and is counted: among users that are all dictionaries, the count with this
  user is the count without it plus one.
\<close>

theorem future_online_at_counts:
  assumes "is_active_status (dict_get kvs ''status'')"
    and "parse_dt fromisoformat (dict_get kvs ''onlineAt'') = Some t"
    and "now < instant t"
    and "get_all_users a = Some (JArr (before @ JObj kvs # after))"
    and "list_all is_dict (before @ after)"
  shows "is_recent now (Some t) 5
    \<and> get_inbound_online_count fromisoformat now a
        = get_inbound_online_count fromisoformat now
            (a\<lparr>get_all_users := Some (JArr (before @ after))\<rparr>) + 1"
proof -
  from assms(3) have recent: "is_recent now (Some t) 5"
    by (simp add: is_recent_def)
  with assms(1,2) have on: "online_user fromisoformat now (JObj kvs)"
    by (simp add: online_user_def)
  from assms(5) have dicts: "list_all is_dict (before @ JObj kvs # after)" by simp
  have "get_inbound_online_count fromisoformat now a
      = length (filter (online_user fromisoformat now) (before @ JObj kvs # after))"
    by (rule online_count_dicts [OF assms(4) dicts])
  moreover have "get_inbound_online_count fromisoformat now
        (a\<lparr>get_all_users := Some (JArr (before @ after))\<rparr>)
      = length (filter (online_user fromisoformat now) (before @ after))"
    by (rule online_count_dicts [OF _ assms(5)]) simp
  ultimately show ?thesis using recent on by simp
qed

theorem future_online_at_counts_witness:
  "get_inbound_online_count sample_clock 0
     (users_api [JObj [(''status'', JStr ''active''),
                       (''onlineAt'', JStr ''2030-01-01T00:10:00Z'')]]) = 1"
proof -
  let ?kvs = "[(''status'', JStr ''active''), (''onlineAt'', JStr ''2030-01-01T00:10:00Z'')]"
  let ?t = "\<lparr>wall_clock = 600000000, utcoffset = Some 0\<rparr>"
  have a: "is_active_status (dict_get ?kvs ''status'')" by code_simp
  have b: "parse_dt sample_clock (dict_get ?kvs ''onlineAt'') = Some ?t" by code_simp
  have c: "(0::int) < instant ?t" by (simp add: instant_def)
  have d: "get_all_users (users_api [JObj ?kvs]) = Some (JArr ([] @ JObj ?kvs # []))"
    by (simp add: users_api_def)
  have e: "list_all is_dict ([] @ ([]::json list))" by simp
  have "get_inbound_online_count sample_clock 0
      ((users_api [JObj ?kvs])\<lparr>get_all_users := Some (JArr ([] @ []))\<rparr>) = 0"
    by (simp add: get_inbound_online_count_def)
  with future_online_at_counts [OF a b c d e] show ?thesis by simp
qed

end
